theory Spec2Isabelle
  imports Complex_Main "HOL-Library.AList"
begin

section \<open>Data model\<close>

text \<open>
  The program \<^verbatim>\<open>ingest_weather.py\<close> is a pandas pipeline. A table cell is a number, a
  text, the missing value of a numeric or object column (\<open>NaN\<close>), a timestamp of the
  derived \<open>datetime\<close> column, or the missing timestamp (\<open>NaT\<close>). Numbers are rationals:
  the only arithmetic the program does on them is the comparison with zero, which is
  exact. Timestamps are integers on a fixed time axis.
\<close>

datatype cell = Num rat | Txt string | NaN | Stamp int | NaT

text \<open>
  A table has its column names, in order, and its rows, in order; a row gives the cell
  of each column by name, as \<^verbatim>\<open>df.to_dict("records")\<close> does.
\<close>

type_synonym row = "(string \<times> cell) list"

record frame =
  columns :: "string list"
  rows :: "row list"

datatype error =
    ValueError string
  | KeyError string
  | TypeError string
  | DateParseError string
  | RemoteError string

text \<open>
  What the program does to the outside: it creates the output directory, prints, opens
  the file of a station over HTTPS, and writes the final table. A run returns the events
  in the order they happened.
\<close>

datatype event =
    MkDir string
  | Print string
  | HttpGet string
  | WriteParquet string frame

text \<open>
  The three conversions of the pandas library whose results the program takes as given:
  \<^verbatim>\<open>pd.to_datetime\<close> on a text (it raises on a text that is no date: \<open>None\<close>),
  \<^verbatim>\<open>pd.to_datetime\<close> on year, month, day, hour and minute with
  \<^verbatim>\<open>errors="coerce"\<close> (\<open>None\<close> is the missing timestamp), and the number a text
  denotes for \<^verbatim>\<open>pd.to_numeric\<close> (\<open>None\<close> when it denotes none). Every definition
  below takes them as the parameter \<open>P\<close>, and every fact below holds for all of them.
  Each is a function of its arguments alone: the timestamp of a row depends on the five
  cells of that row, not on the other rows of its chunk.
\<close>

record pandas =
  to_datetime_text :: "string \<Rightarrow> int option"
  to_datetime_units :: "cell \<Rightarrow> cell \<Rightarrow> cell \<Rightarrow> cell \<Rightarrow> cell \<Rightarrow> int option"
  to_numeric_text :: "string \<Rightarrow> rat option"

text \<open>
  The remote source: what the reader gets from each URL when it reads in chunks of a given
  size, either a failure of the transfer or of the parse, or the parsed file, with its
  header and its records. The reader is called without \<^verbatim>\<open>dtype\<close>, so it infers the type
  of each column chunk by chunk: the cells of a file can differ from one chunk size to
  another, and the parsed file is a function of the chunk size. The source does not change
  during a run.
\<close>

type_synonym remote = "string \<Rightarrow> int \<Rightarrow> error + frame"

record args =
  arg_start :: string
  arg_end :: string
  arg_stations :: string
  arg_chunksize :: int

section \<open>Constants of the module\<close>

definition GHCNH_BASE_URL :: string where
  "GHCNH_BASE_URL = ''https://www.ncei.noaa.gov/oa/global-historical-climatology-network''"

definition OUT_DIR :: string where
  "OUT_DIR = ''data/raw/weather_hourly''"

definition STATION_FILE_TEMPLATE :: "string \<Rightarrow> string" where
  "STATION_FILE_TEMPLATE station =
     GHCNH_BASE_URL @ ''/hourly/access/by-station/GHCNh_'' @ station @ ''_por.psv''"

definition USE_COLS :: "string list" where
  "USE_COLS =
     [''Station_ID'', ''Station_name'', ''Year'', ''Month'', ''Day'', ''Hour'', ''Minute'',
      ''Latitude'', ''Longitude'', ''Elevation'', ''temperature'', ''dew_point_temperature'',
      ''station_level_pressure'', ''sea_level_pressure'', ''wind_speed'', ''wind_gust'',
      ''precipitation'', ''relative_humidity'']"

text \<open>The list literal of the coercion loop of \<^verbatim>\<open>main\<close>.\<close>

definition MEASUREMENT_COLS :: "string list" where
  "MEASUREMENT_COLS =
     [''temperature'', ''dew_point_temperature'', ''station_level_pressure'',
      ''sea_level_pressure'', ''wind_speed'', ''wind_gust'', ''precipitation'',
      ''relative_humidity'']"

section \<open>Tables\<close>

definition cell_at :: "row \<Rightarrow> string \<Rightarrow> cell" where
  "cell_at r c = (case map_of r c of Some v \<Rightarrow> v | None \<Rightarrow> NaN)"

text \<open>A row laid out on the columns \<open>cols\<close>; a column the row lacks is missing.\<close>

definition reindex :: "string list \<Rightarrow> row \<Rightarrow> row" where
  "reindex cols r = map (\<lambda>c. (c, cell_at r c)) cols"

text \<open>The names of a list, each once, in the order of their first occurrence.\<close>

definition ordered_union :: "string list \<Rightarrow> string list" where
  "ordered_union cs = rev (remdups (rev cs))"

text \<open>\<^verbatim>\<open>pd.DataFrame(columns=cols)\<close>\<close>

definition DataFrame :: "string list \<Rightarrow> frame" where
  "DataFrame cols = \<lparr>columns = cols, rows = []\<rparr>"

text \<open>\<^verbatim>\<open>df.empty\<close>: an axis of the table has length zero.\<close>

definition df_empty :: "frame \<Rightarrow> bool" where
  "df_empty df = (rows df = [] \<or> columns df = [])"

text \<open>The values of a column, and \<^verbatim>\<open>df[c]\<close>, which raises on an unknown name.\<close>

definition series :: "frame \<Rightarrow> string \<Rightarrow> cell list" where
  "series df c = map (\<lambda>r. cell_at r c) (rows df)"

definition getitem :: "frame \<Rightarrow> string \<Rightarrow> error + cell list" where
  "getitem df c = (if c \<in> set (columns df) then Inr (series df c) else Inl (KeyError c))"

text \<open>
  \<^verbatim>\<open>df[c] = values\<close>: the column is replaced where it stands, or added as the last one.
  The program only assigns values computed from the same table, one per row.
\<close>

definition setitem :: "frame \<Rightarrow> string \<Rightarrow> cell list \<Rightarrow> frame" where
  "setitem df c vs =
     \<lparr>columns = (if c \<in> set (columns df) then columns df else columns df @ [c]),
      rows = map (\<lambda>(r, v). AList.update c v r) (zip (rows df) vs)\<rparr>"

text \<open>\<^verbatim>\<open>df.loc[msk]\<close>\<close>

definition loc :: "frame \<Rightarrow> bool list \<Rightarrow> frame" where
  "loc df msk = \<lparr>columns = columns df, rows = map fst (filter snd (zip (rows df) msk))\<rparr>"

text \<open>
  \<^verbatim>\<open>pd.concat(frames, ignore_index=True)\<close>: the columns are the union of the frames'
  columns in the order of first occurrence, and the rows follow in the order of the
  frames, each laid out on those columns. It raises on an empty list.
\<close>

definition pd_concat :: "frame list \<Rightarrow> error + frame" where
  "pd_concat fs =
     (if fs = [] then Inl (ValueError ''No objects to concatenate'')
      else let cols = ordered_union (concat (map columns fs))
           in Inr \<lparr>columns = cols, rows = concat (map (\<lambda>f. map (reindex cols) (rows f)) fs)\<rparr>)"

section \<open>Reading a station file in chunks\<close>

fun chunks_of :: "nat \<Rightarrow> 'a list \<Rightarrow> 'a list list" where
  "chunks_of n xs = (if n = 0 \<or> xs = [] then [] else take n xs # chunks_of n (drop n xs))"

declare chunks_of.simps [simp del]

text \<open>
  \<^verbatim>\<open>pd.read_csv(url, sep="|", usecols=usecols, chunksize=chunksize)\<close>, iterated to its
  end. A chunk size below one is refused before the source is contacted. A column of
  \<open>usecols\<close> that the file lacks is an error. The chunks keep the selected columns in the
  order of the file (a repeated header name counts once, at its first occurrence), and
  hold at most \<open>chunksize\<close> records each, in the order of the file. The cells are
  those that the reader parses at this chunk size: no \<^verbatim>\<open>dtype\<close> is given, the types are
  inferred per chunk, and the same file can give other cells at another chunk size. A
  file without records gives no chunk with a row, whatever the chunk size.
\<close>

definition read_csv ::
  "remote \<Rightarrow> string \<Rightarrow> string list \<Rightarrow> int \<Rightarrow> event list \<times> (error + frame list)" where
  "read_csv W url usecols chunksize =
     (if chunksize < 1 then ([], Inl (ValueError ''chunksize must be an integer >=1''))
      else case W url chunksize of
        Inl e \<Rightarrow> ([HttpGet url], Inl e)
      | Inr file \<Rightarrow>
          (case filter (\<lambda>c. c \<notin> set (columns file)) usecols of
             c # cs \<Rightarrow> ([HttpGet url], Inl (ValueError ''Usecols do not match columns''))
           | [] \<Rightarrow>
               let cols = ordered_union (filter (\<lambda>c. c \<in> set usecols) (columns file))
               in ([HttpGet url],
                   Inr (map (\<lambda>rs. \<lparr>columns = cols, rows = rs\<rparr>)
                          (chunks_of (nat chunksize) (map (reindex cols) (rows file)))))))"

section \<open>The datetime normalizer\<close>

definition stamp_cell :: "int option \<Rightarrow> cell" where
  "stamp_cell t = (case t of None \<Rightarrow> NaT | Some x \<Rightarrow> Stamp x)"

definition row_datetime :: "pandas \<Rightarrow> row \<Rightarrow> cell" where
  "row_datetime P r =
     stamp_cell (to_datetime_units P (cell_at r ''Year'') (cell_at r ''Month'')
       (cell_at r ''Day'') (cell_at r ''Hour'') (cell_at r ''Minute''))"

definition parse_datetime_frame :: "pandas \<Rightarrow> frame \<Rightarrow> error + cell list" where
  "parse_datetime_frame P frame =
     (case filter (\<lambda>c. c \<notin> set (columns frame)) [''Year'', ''Month'', ''Day'', ''Hour'', ''Minute''] of
        c # cs \<Rightarrow> Inl (KeyError c)
      | [] \<Rightarrow> Inr (map (row_datetime P) (rows frame)))"

section \<open>The station fetcher\<close>

text \<open>A comparison with a missing timestamp is false.\<close>

definition ge_ts :: "cell \<Rightarrow> int \<Rightarrow> bool" where
  "ge_ts v t = (case v of Stamp x \<Rightarrow> t \<le> x | _ \<Rightarrow> False)"

definition le_ts :: "cell \<Rightarrow> int \<Rightarrow> bool" where
  "le_ts v t = (case v of Stamp x \<Rightarrow> x \<le> t | _ \<Rightarrow> False)"

text \<open>The body of the loop over the chunks, with the list \<open>kept\<close> of the chunks kept so far.\<close>

fun fetch_loop :: "pandas \<Rightarrow> int \<Rightarrow> int \<Rightarrow> frame list \<Rightarrow> frame list \<Rightarrow> error + frame list" where
  "fetch_loop P start_ts end_ts [] kept = Inr kept"
| "fetch_loop P start_ts end_ts (chunk # chunks) kept =
     (case parse_datetime_frame P chunk of
        Inl e \<Rightarrow> Inl e
      | Inr dts \<Rightarrow>
          (let chunk' = setitem chunk ''datetime'' dts in
           case getitem chunk' ''datetime'' of
             Inl e \<Rightarrow> Inl e
           | Inr col \<Rightarrow>
               (let msk = map (\<lambda>v. ge_ts v start_ts \<and> le_ts v end_ts) col in
                fetch_loop P start_ts end_ts chunks
                  (if list_ex (\<lambda>b. b) msk then kept @ [loc chunk' msk] else kept))))"

text \<open>
  Lines 68 to 77 of \<^verbatim>\<open>read_station_hourly\<close>, on the chunks that the reader yields:
  the loop, then the empty table or the concatenation of the chunks kept.
\<close>

definition collect_chunks :: "pandas \<Rightarrow> int \<Rightarrow> int \<Rightarrow> frame list \<Rightarrow> error + frame" where
  "collect_chunks P start_ts end_ts chunks =
     (case fetch_loop P start_ts end_ts chunks [] of
        Inl e \<Rightarrow> Inl e
      | Inr kept \<Rightarrow>
          if kept = [] then Inr (DataFrame (USE_COLS @ [''datetime'']))
          else pd_concat kept)"

definition read_station_hourly ::
  "pandas \<Rightarrow> remote \<Rightarrow> string \<Rightarrow> int \<Rightarrow> int \<Rightarrow> int \<Rightarrow> event list \<times> (error + frame)" where
  "read_station_hourly P W station_id start_ts end_ts chunksize =
     (let url = STATION_FILE_TEMPLATE station_id in
      case read_csv W url USE_COLS chunksize of
        (ev, Inl e) \<Rightarrow> (Print ''station_url:'' # ev, Inl e)
      | (ev, Inr chunks) \<Rightarrow>
          (Print ''station_url:'' # ev, collect_chunks P start_ts end_ts chunks))"

section \<open>The command line\<close>

text \<open>
  Python's \<^verbatim>\<open>str.split(",")\<close> and \<^verbatim>\<open>str.strip()\<close>. A character stands for its code
  point; the white space below 256 is what \<^verbatim>\<open>strip\<close> removes.
\<close>

fun split_on :: "char \<Rightarrow> string \<Rightarrow> string list" where
  "split_on sep [] = [[]]"
| "split_on sep (c # cs) =
     (if c = sep then [] # split_on sep cs
      else case split_on sep cs of
             [] \<Rightarrow> [[c]]
           | w # ws \<Rightarrow> (c # w) # ws)"

definition is_space :: "char \<Rightarrow> bool" where
  "is_space c = ((of_char c :: nat) \<in> {9, 10, 11, 12, 13, 28, 29, 30, 31, 32, 133, 160})"

definition strip :: "string \<Rightarrow> string" where
  "strip s = rev (dropWhile is_space (rev (dropWhile is_space s)))"

text \<open>\<^verbatim>\<open>[s.strip() for s in text.split(",") if s.strip()]\<close>\<close>

definition station_ids_of :: "string \<Rightarrow> string list" where
  "station_ids_of text = map strip (filter (\<lambda>s. strip s \<noteq> []) (split_on CHR '','' text))"

section \<open>The multi-station aggregator\<close>

text \<open>The loop of \<^verbatim>\<open>main\<close> over the stations, with the list \<open>frames\<close> collected so far.\<close>

fun station_loop ::
  "pandas \<Rightarrow> remote \<Rightarrow> int \<Rightarrow> int \<Rightarrow> int \<Rightarrow> string list \<Rightarrow> frame list
     \<Rightarrow> event list \<times> (error + frame list)" where
  "station_loop P W start_ts end_ts chunksize [] frames = ([], Inr frames)"
| "station_loop P W start_ts end_ts chunksize (station_id # ids) frames =
     (case read_station_hourly P W station_id start_ts end_ts chunksize of
        (ev, Inl e) \<Rightarrow> (ev, Inl e)
      | (ev, Inr df_station) \<Rightarrow>
          (case station_loop P W start_ts end_ts chunksize ids
                  (if \<not> df_empty df_station then frames @ [df_station] else frames) of
             (ev', r) \<Rightarrow> (ev @ ev', r)))"

text \<open>The loop, the check that some station had data, and the concatenation.\<close>

definition aggregate ::
  "pandas \<Rightarrow> remote \<Rightarrow> int \<Rightarrow> int \<Rightarrow> int \<Rightarrow> string list \<Rightarrow> event list \<times> (error + frame)" where
  "aggregate P W start_ts end_ts chunksize station_ids =
     (case station_loop P W start_ts end_ts chunksize station_ids [] of
        (ev, Inl e) \<Rightarrow> (ev, Inl e)
      | (ev, Inr frames) \<Rightarrow>
          if frames = []
          then (ev, Inl (ValueError ''No data found for the provided stations and date range.''))
          else (ev, pd_concat frames))"

section \<open>The post-processor\<close>

text \<open>
  \<^verbatim>\<open>str.lower()\<close> on the letters of ASCII; every column name of the program is ASCII.
\<close>

definition lower_char :: "char \<Rightarrow> char" where
  "lower_char c =
     (case map_of (zip ''ABCDEFGHIJKLMNOPQRSTUVWXYZ'' ''abcdefghijklmnopqrstuvwxyz'') c of
        Some d \<Rightarrow> d
      | None \<Rightarrow> c)"

definition lower :: "string \<Rightarrow> string" where
  "lower s = map lower_char s"

text \<open>\<^verbatim>\<open>df.columns = [c.lower() for c in df.columns]\<close>\<close>

definition lower_columns :: "frame \<Rightarrow> frame" where
  "lower_columns df =
     \<lparr>columns = map lower (columns df),
      rows = map (map (\<lambda>(c, v). (lower c, v))) (rows df)\<rparr>"

text \<open>
  \<^verbatim>\<open>pd.to_numeric(..., errors="coerce")\<close> on one cell: a number stays, a text becomes
  the number it denotes or the missing value, a timestamp becomes its integer.
\<close>

definition to_numeric :: "pandas \<Rightarrow> cell \<Rightarrow> cell" where
  "to_numeric P v =
     (case v of
        Num x \<Rightarrow> Num x
      | Txt s \<Rightarrow> (case to_numeric_text P s of Some x \<Rightarrow> Num x | None \<Rightarrow> NaN)
      | NaN \<Rightarrow> NaN
      | Stamp t \<Rightarrow> Num (of_int t)
      | NaT \<Rightarrow> NaN)"

fun coerce_loop :: "pandas \<Rightarrow> string list \<Rightarrow> frame \<Rightarrow> frame" where
  "coerce_loop P [] df = df"
| "coerce_loop P (col # cols) df =
     coerce_loop P cols
       (if col \<in> set (columns df) then setitem df col (map (to_numeric P) (series df col))
        else df)"

text \<open>
  \<^verbatim>\<open>series > 0\<close>: false on a missing value; Python raises on a text or a timestamp.
\<close>

fun gt_zero :: "cell list \<Rightarrow> error + bool list" where
  "gt_zero [] = Inr []"
| "gt_zero (v # vs) =
     (case v of
        Num x \<Rightarrow> (case gt_zero vs of Inl e \<Rightarrow> Inl e | Inr bs \<Rightarrow> Inr ((0 < x) # bs))
      | NaN \<Rightarrow> (case gt_zero vs of Inl e \<Rightarrow> Inl e | Inr bs \<Rightarrow> Inr (False # bs))
      | _ \<Rightarrow> Inl (TypeError ''> not supported''))"

definition astype_int :: "bool \<Rightarrow> cell" where
  "astype_int b = Num (if b then 1 else 0)"

definition post_process :: "pandas \<Rightarrow> frame \<Rightarrow> error + frame" where
  "post_process P df0 =
     (let df = coerce_loop P MEASUREMENT_COLS (lower_columns df0) in
      case getitem df ''precipitation'' of
        Inl e \<Rightarrow> Inl e
      | Inr precipitation \<Rightarrow>
          (case gt_zero precipitation of
             Inl e \<Rightarrow> Inl e
           | Inr wet \<Rightarrow> Inr (setitem df ''is_rain'' (map astype_int wet))))"

section \<open>The program\<close>

definition out_path :: "args \<Rightarrow> string" where
  "out_path a =
     OUT_DIR @ ''/weather_hourly_'' @ arg_start a @ ''_to_'' @ arg_end a @ ''.parquet''"

definition main :: "pandas \<Rightarrow> remote \<Rightarrow> args \<Rightarrow> event list \<times> (error + unit)" where
  "main P W a =
     (case to_datetime_text P (arg_start a @ '' 00:00'') of
        None \<Rightarrow> ([], Inl (DateParseError (arg_start a @ '' 00:00'')))
      | Some start_ts \<Rightarrow>
     (case to_datetime_text P (arg_end a @ '' 23:59'') of
        None \<Rightarrow> ([], Inl (DateParseError (arg_end a @ '' 23:59'')))
      | Some end_ts \<Rightarrow>
     (let station_ids = station_ids_of (arg_stations a) in
      if station_ids = [] then ([], Inl (ValueError ''No stations provided.''))
      else
        case aggregate P W start_ts end_ts (arg_chunksize a) station_ids of
          (ev, Inl e) \<Rightarrow> (ev, Inl e)
        | (ev, Inr df0) \<Rightarrow>
            (let ev1 = ev @ [Print ''shape:'', Print ''cols:'', Print ''head''] in
             case post_process P df0 of
               Inl e \<Rightarrow> (ev1, Inl e)
             | Inr df \<Rightarrow>
                 (case getitem df ''datetime'' of
                    Inl e \<Rightarrow> (ev1, Inl e)
                  | Inr dts \<Rightarrow>
                      (ev1 @ [Print ''datetime_range:'', WriteParquet (out_path a) df,
                              Print ''saved:''],
                       Inr ()))))))"

text \<open>
  Running the file: the module creates the output directory when it is loaded, then
  calls \<^verbatim>\<open>main\<close>.
\<close>

definition script :: "pandas \<Rightarrow> remote \<Rightarrow> args \<Rightarrow> event list \<times> (error + unit)" where
  "script P W a = (case main P W a of (ev, r) \<Rightarrow> (MkDir OUT_DIR # ev, r))"

section \<open>What the station fetcher computes\<close>

text \<open>
  The functions of this section describe the results of the program; the facts below
  relate them to the code. A record with its \<open>datetime\<close> cell, the test of the range
  filter on that cell, and the records of a list that pass it.
\<close>

definition with_datetime :: "pandas \<Rightarrow> row \<Rightarrow> row" where
  "with_datetime P r = AList.update ''datetime'' (row_datetime P r) r"

definition in_range :: "int \<Rightarrow> int \<Rightarrow> row \<Rightarrow> bool" where
  "in_range start_ts end_ts r =
     (ge_ts (cell_at r ''datetime'') start_ts \<and> le_ts (cell_at r ''datetime'') end_ts)"

definition kept_rows :: "pandas \<Rightarrow> int \<Rightarrow> int \<Rightarrow> row list \<Rightarrow> row list" where
  "kept_rows P start_ts end_ts rs = filter (in_range start_ts end_ts) (map (with_datetime P) rs)"

text \<open>
  The columns of a station file that the reader keeps, the rows the fetcher keeps of the
  file, and the table it returns.
\<close>

definition selected_cols :: "frame \<Rightarrow> string list" where
  "selected_cols fl = ordered_union (filter (\<lambda>c. c \<in> set USE_COLS) (columns fl))"

definition station_rows :: "pandas \<Rightarrow> int \<Rightarrow> int \<Rightarrow> frame \<Rightarrow> row list" where
  "station_rows P start_ts end_ts fl =
     kept_rows P start_ts end_ts (map (reindex (selected_cols fl)) (rows fl))"

definition dt_cols :: "string list \<Rightarrow> string list" where
  "dt_cols cols = (if ''datetime'' \<in> set cols then cols else cols @ [''datetime''])"

definition station_table :: "pandas \<Rightarrow> int \<Rightarrow> int \<Rightarrow> frame \<Rightarrow> frame" where
  "station_table P start_ts end_ts fl =
     (if station_rows P start_ts end_ts fl = [] then DataFrame (USE_COLS @ [''datetime''])
      else \<lparr>columns = selected_cols fl @ [''datetime''],
            rows = station_rows P start_ts end_ts fl\<rparr>)"

text \<open>
  The range test on the record itself: its year, month, day, hour and minute give a
  timestamp, and the timestamp lies between the two bounds.
\<close>

definition row_in_range :: "pandas \<Rightarrow> int \<Rightarrow> int \<Rightarrow> row \<Rightarrow> bool" where
  "row_in_range P start_ts end_ts r =
     (case to_datetime_units P (cell_at r ''Year'') (cell_at r ''Month'') (cell_at r ''Day'')
             (cell_at r ''Hour'') (cell_at r ''Minute'') of
        None \<Rightarrow> False
      | Some t \<Rightarrow> start_ts \<le> t \<and> t \<le> end_ts)"

section \<open>An instance of the library conversions, and a small remote source\<close>

text \<open>
  An instance of the three conversions, to run the program on concrete inputs: plain
  decimal numerals, dates of the Gregorian calendar, and timestamps counted in minutes
  since 1970-01-01 00:00. Three stations: \<open>A\<close> has six records, three of them within
  2024-01-01 and 2024-01-02, one with month 13, and a temperature field that is not a
  numeral; \<open>B\<close> has one record, of 2022; \<open>C\<close> has four records, two of them within
  the two days, and numerals in every measurement field.
\<close>

definition digit_of :: "char \<Rightarrow> nat option" where
  "digit_of c = map_of (zip ''0123456789'' [0, 1, 2, 3, 4, 5, 6, 7, 8, 9]) c"

fun digits_value :: "string \<Rightarrow> nat \<Rightarrow> nat option" where
  "digits_value [] acc = Some acc"
| "digits_value (c # cs) acc =
     (case digit_of c of None \<Rightarrow> None | Some d \<Rightarrow> digits_value cs (10 * acc + d))"

definition nat_of_text :: "string \<Rightarrow> nat option" where
  "nat_of_text s = (if s = [] then None else digits_value s 0)"

definition decimal_of_text :: "string \<Rightarrow> rat option" where
  "decimal_of_text s =
     (let neg = (take 1 s = ''-'');
          body = (if neg then drop 1 s else s);
          ip = takeWhile (\<lambda>c. c \<noteq> CHR ''.'') body;
          rest = dropWhile (\<lambda>c. c \<noteq> CHR ''.'') body;
          fp = drop 1 rest
      in case (nat_of_text ip, if rest = [] then Some 0 else nat_of_text fp) of
           (Some i, Some f) \<Rightarrow>
             Some ((if neg then - 1 else 1) * (of_nat i + of_nat f / 10 ^ length fp))
         | _ \<Rightarrow> None)"

definition is_leap :: "int \<Rightarrow> bool" where
  "is_leap y = (y mod 4 = 0 \<and> (y mod 100 \<noteq> 0 \<or> y mod 400 = 0))"

definition days_in_month :: "int \<Rightarrow> int \<Rightarrow> int" where
  "days_in_month y m =
     (if m = 2 then (if is_leap y then 29 else 28)
      else if m = 4 \<or> m = 6 \<or> m = 9 \<or> m = 11 then 30 else 31)"

definition days_from_civil :: "int \<Rightarrow> int \<Rightarrow> int \<Rightarrow> int" where
  "days_from_civil y m d =
     (let y' = (if m \<le> 2 then y - 1 else y);
          era = y' div 400;
          yoe = y' - era * 400;
          doy = (153 * (if 2 < m then m - 3 else m + 9) + 2) div 5 + d - 1;
          doe = yoe * 365 + yoe div 4 - yoe div 100 + doy
      in era * 146097 + doe - 719468)"

definition minute_stamp :: "int \<Rightarrow> int \<Rightarrow> int \<Rightarrow> int \<Rightarrow> int \<Rightarrow> int option" where
  "minute_stamp y m d h mi =
     (if 1678 \<le> y \<and> y \<le> 2261 \<and> 1 \<le> m \<and> m \<le> 12 \<and> 1 \<le> d \<and> d \<le> days_in_month y m
      then Some ((days_from_civil y m d * 24 + h) * 60 + mi)
      else None)"

definition int_of_cell :: "cell \<Rightarrow> int option" where
  "int_of_cell v =
     (case v of
        Num x \<Rightarrow> (if of_int \<lfloor>x\<rfloor> = x then Some \<lfloor>x\<rfloor> else None)
      | Txt s \<Rightarrow> (case decimal_of_text s of
                    Some x \<Rightarrow> (if of_int \<lfloor>x\<rfloor> = x then Some \<lfloor>x\<rfloor> else None)
                  | None \<Rightarrow> None)
      | _ \<Rightarrow> None)"

definition units_stamp :: "cell \<Rightarrow> cell \<Rightarrow> cell \<Rightarrow> cell \<Rightarrow> cell \<Rightarrow> int option" where
  "units_stamp y m d h mi =
     (case (int_of_cell y, int_of_cell m, int_of_cell d, int_of_cell h, int_of_cell mi) of
        (Some y', Some m', Some d', Some h', Some mi') \<Rightarrow> minute_stamp y' m' d' h' mi'
      | _ \<Rightarrow> None)"

definition text_stamp :: "string \<Rightarrow> int option" where
  "text_stamp s =
     (if length s = 16 \<and> s ! 4 = CHR ''-'' \<and> s ! 7 = CHR ''-'' \<and> s ! 10 = CHR '' ''
         \<and> s ! 13 = CHR '':''
      then
        (case (nat_of_text (take 4 s), nat_of_text (take 2 (drop 5 s)),
               nat_of_text (take 2 (drop 8 s)), nat_of_text (take 2 (drop 11 s)),
               nat_of_text (take 2 (drop 14 s))) of
           (Some y, Some m, Some d, Some h, Some mi) \<Rightarrow>
             (if h < 24 \<and> mi < 60 then minute_stamp (int y) (int m) (int d) (int h) (int mi)
              else None)
         | _ \<Rightarrow> None)
      else None)"

definition pd_ref :: pandas where
  "pd_ref = \<lparr>to_datetime_text = text_stamp, to_datetime_units = units_stamp,
             to_numeric_text = decimal_of_text\<rparr>"

definition demo_record ::
  "string \<Rightarrow> rat \<Rightarrow> rat \<Rightarrow> rat \<Rightarrow> rat \<Rightarrow> rat \<Rightarrow> cell \<Rightarrow> cell \<Rightarrow> row" where
  "demo_record sid y m d h mi temp precip =
     [(''Station_ID'', Txt sid), (''Station_name'', Txt ''NY CITY CENTRAL PARK''),
      (''Year'', Num y), (''Month'', Num m), (''Day'', Num d), (''Hour'', Num h),
      (''Minute'', Num mi), (''Latitude'', Num (407789 / 10000)),
      (''Longitude'', Num (- 739692 / 10000)), (''Elevation'', Num (427 / 10)),
      (''temperature'', temp), (''temperature_Quality_Code'', Num 1),
      (''dew_point_temperature'', Num (- 11 / 10)),
      (''station_level_pressure'', Num 1012), (''sea_level_pressure'', Num 1017),
      (''wind_speed'', Num 3), (''wind_gust'', NaN), (''precipitation'', precip),
      (''relative_humidity'', Num 61)]"

definition demo_header :: "string list" where
  "demo_header = map fst (demo_record [] 0 0 0 0 0 NaN NaN)"

text \<open>
  The files as the server holds them: every field is a text, an empty field is missing.
\<close>

definition psv_field :: "string \<Rightarrow> cell" where
  "psv_field s = (if s = [] then NaN else Txt s)"

definition demo_line ::
  "string \<Rightarrow> string \<Rightarrow> string \<Rightarrow> string \<Rightarrow> string \<Rightarrow> string \<Rightarrow> string \<Rightarrow> string \<Rightarrow> row" where
  "demo_line sid y m d h mi temp precip =
     [(''Station_ID'', psv_field sid), (''Station_name'', psv_field ''NY CITY CENTRAL PARK''),
      (''Year'', psv_field y), (''Month'', psv_field m), (''Day'', psv_field d),
      (''Hour'', psv_field h), (''Minute'', psv_field mi),
      (''Latitude'', psv_field ''40.7789''), (''Longitude'', psv_field ''-73.9692''),
      (''Elevation'', psv_field ''42.7''), (''temperature'', psv_field temp),
      (''temperature_Quality_Code'', psv_field ''1''),
      (''dew_point_temperature'', psv_field ''-1.1''),
      (''station_level_pressure'', psv_field ''1012''),
      (''sea_level_pressure'', psv_field ''1017''), (''wind_speed'', psv_field ''3''),
      (''wind_gust'', psv_field []), (''precipitation'', psv_field precip),
      (''relative_humidity'', psv_field ''61'')]"

definition demo_psv_A :: frame where
  "demo_psv_A = \<lparr>columns = demo_header, rows =
     [demo_line ''A'' ''2023'' ''12'' ''31'' ''23'' ''59'' ''1'' ''2'',
      demo_line ''A'' ''2024'' ''1'' ''1'' ''0'' ''0'' ''abc'' ''0.5'',
      demo_line ''A'' ''2024'' ''13'' ''1'' ''0'' ''0'' ''2'' ''1'',
      demo_line ''A'' ''2024'' ''1'' ''1'' ''12'' ''30'' ''3'' [],
      demo_line ''A'' ''2024'' ''1'' ''2'' ''23'' ''59'' ''4.5'' ''0.0'',
      demo_line ''A'' ''2024'' ''1'' ''3'' ''0'' ''0'' ''5'' ''1'']\<rparr>"

definition demo_psv_B :: frame where
  "demo_psv_B = \<lparr>columns = demo_header, rows =
     [demo_line ''B'' ''2022'' ''6'' ''1'' ''0'' ''0'' ''20'' ''0'']\<rparr>"

definition demo_psv_C :: frame where
  "demo_psv_C = \<lparr>columns = demo_header, rows =
     [demo_line ''C'' ''2024'' ''1'' ''1'' ''6'' ''0'' ''10'' ''0.2'',
      demo_line ''C'' ''2024'' ''1'' ''2'' ''7'' ''30'' ''11'' [],
      demo_line ''C'' ''2024'' ''1'' ''5'' ''0'' ''0'' ''12'' ''0'',
      demo_line ''C'' ''2023'' ''1'' ''1'' ''0'' ''0'' ''13'' ''1'']\<rparr>"

text \<open>
  The types that the reader infers on one chunk: a column whose fields in the chunk are
  all numerals or missing becomes numeric; any other column keeps its fields as texts.
  The file read in chunks of a given size is the chunks of its records, each with the
  types inferred on it.
\<close>

definition numeric_field :: "cell \<Rightarrow> bool" where
  "numeric_field v = (case v of Txt s \<Rightarrow> decimal_of_text s \<noteq> None | _ \<Rightarrow> True)"

definition infer_chunk :: "string list \<Rightarrow> row list \<Rightarrow> row list" where
  "infer_chunk cols rs =
     (let numeric = filter (\<lambda>c. list_all (\<lambda>r. numeric_field (cell_at r c)) rs) cols
      in map (map (\<lambda>(c, v). (c, if c \<in> set numeric then to_numeric pd_ref v else v))) rs)"

definition parse_in_chunks :: "int \<Rightarrow> frame \<Rightarrow> frame" where
  "parse_in_chunks chunksize fl =
     \<lparr>columns = columns fl,
      rows = concat (map (infer_chunk (columns fl)) (chunks_of (nat chunksize) (rows fl)))\<rparr>"

definition demo_remote :: remote where
  "demo_remote url chunksize =
     (if url = STATION_FILE_TEMPLATE ''A'' then Inr (parse_in_chunks chunksize demo_psv_A)
      else if url = STATION_FILE_TEMPLATE ''B'' then Inr (parse_in_chunks chunksize demo_psv_B)
      else if url = STATION_FILE_TEMPLATE ''C'' then Inr (parse_in_chunks chunksize demo_psv_C)
      else Inl (RemoteError ''HTTP Error 404: Not Found''))"

text \<open>
  The files as the reader parses them: \<open>A\<close> in chunks of two records (the temperature of
  the first chunk stays a text, next to \<open>abc\<close>) and in one chunk of six (every
  temperature stays a text), \<open>B\<close> and \<open>C\<close> at any chunk size.
\<close>

definition demo_A :: frame where
  "demo_A = \<lparr>columns = demo_header, rows =
     [demo_record ''A'' 2023 12 31 23 59 (Txt ''1'') (Num 2),
      demo_record ''A'' 2024 1 1 0 0 (Txt ''abc'') (Num (1 / 2)),
      demo_record ''A'' 2024 13 1 0 0 (Num 2) (Num 1),
      demo_record ''A'' 2024 1 1 12 30 (Num 3) NaN,
      demo_record ''A'' 2024 1 2 23 59 (Num (9 / 2)) (Num 0),
      demo_record ''A'' 2024 1 3 0 0 (Num 5) (Num 1)]\<rparr>"


definition demo_B :: frame where
  "demo_B = \<lparr>columns = demo_header, rows = [demo_record ''B'' 2022 6 1 0 0 (Num 20) (Num 0)]\<rparr>"


definition demo_args :: args where
  "demo_args = \<lparr>arg_start = ''2024-01-01'', arg_end = ''2024-01-02'',
                arg_stations = ''A, B'', arg_chunksize = 2\<rparr>"

definition demo_start :: int where "demo_start = 28401120"
definition demo_end :: int where "demo_end = 28403999"

definition demo_kept ::
  "string \<Rightarrow> rat \<Rightarrow> rat \<Rightarrow> rat \<Rightarrow> rat \<Rightarrow> rat \<Rightarrow> cell \<Rightarrow> cell \<Rightarrow> int \<Rightarrow> row" where
  "demo_kept sid y m d h mi temp precip t =
     [(''Station_ID'', Txt sid), (''Station_name'', Txt ''NY CITY CENTRAL PARK''),
      (''Year'', Num y), (''Month'', Num m), (''Day'', Num d), (''Hour'', Num h),
      (''Minute'', Num mi), (''Latitude'', Num (407789 / 10000)),
      (''Longitude'', Num (- 739692 / 10000)), (''Elevation'', Num (427 / 10)),
      (''temperature'', temp), (''dew_point_temperature'', Num (- 11 / 10)),
      (''station_level_pressure'', Num 1012), (''sea_level_pressure'', Num 1017),
      (''wind_speed'', Num 3), (''wind_gust'', NaN), (''precipitation'', precip),
      (''relative_humidity'', Num 61), (''datetime'', Stamp t)]"

definition demo_final ::
  "string \<Rightarrow> rat \<Rightarrow> rat \<Rightarrow> rat \<Rightarrow> rat \<Rightarrow> rat \<Rightarrow> cell \<Rightarrow> cell \<Rightarrow> int \<Rightarrow> rat \<Rightarrow> row" where
  "demo_final sid y m d h mi temp precip t rain =
     [(''station_id'', Txt sid), (''station_name'', Txt ''NY CITY CENTRAL PARK''),
      (''year'', Num y), (''month'', Num m), (''day'', Num d), (''hour'', Num h),
      (''minute'', Num mi), (''latitude'', Num (407789 / 10000)),
      (''longitude'', Num (- 739692 / 10000)), (''elevation'', Num (427 / 10)),
      (''temperature'', temp), (''dew_point_temperature'', Num (- 11 / 10)),
      (''station_level_pressure'', Num 1012), (''sea_level_pressure'', Num 1017),
      (''wind_speed'', Num 3), (''wind_gust'', NaN), (''precipitation'', precip),
      (''relative_humidity'', Num 61), (''datetime'', Stamp t), (''is_rain'', Num rain)]"

definition demo_table_A :: frame where
  "demo_table_A = \<lparr>columns = USE_COLS @ [''datetime''], rows =
     [demo_kept ''A'' 2024 1 1 0 0 (Txt ''abc'') (Num (1 / 2)) 28401120,
      demo_kept ''A'' 2024 1 1 12 30 (Num 3) NaN 28401870,
      demo_kept ''A'' 2024 1 2 23 59 (Num (9 / 2)) (Num 0) 28403999]\<rparr>"



definition demo_out :: frame where
  "demo_out = \<lparr>columns = map lower USE_COLS @ [''datetime'', ''is_rain''], rows =
     [demo_final ''A'' 2024 1 1 0 0 NaN (Num (1 / 2)) 28401120 1,
      demo_final ''A'' 2024 1 1 12 30 (Num 3) NaN 28401870 0,
      demo_final ''A'' 2024 1 2 23 59 (Num (9 / 2)) (Num 0) 28403999 0]\<rparr>"

section \<open>What the post-processor, the aggregator and the program compute\<close>

text \<open>
  What the post-processor does to one row: the names in lower case, the measurement cells
  coerced, the cell of \<open>is_rain\<close> added; and the columns of its result.
\<close>

definition lower_row :: "row \<Rightarrow> row" where
  "lower_row r = map (\<lambda>(c, v). (lower c, v)) r"

definition coerce_row :: "pandas \<Rightarrow> string list \<Rightarrow> row \<Rightarrow> row" where
  "coerce_row P cols r = fold (\<lambda>c r. AList.update c (to_numeric P (cell_at r c)) r) cols r"

definition is_positive :: "cell \<Rightarrow> bool" where
  "is_positive v = (case v of Num x \<Rightarrow> 0 < x | _ \<Rightarrow> False)"

definition post_row :: "pandas \<Rightarrow> string list \<Rightarrow> row \<Rightarrow> row" where
  "post_row P cols r =
     (let r2 = coerce_row P (filter (\<lambda>c. c \<in> set (map lower cols)) MEASUREMENT_COLS) (lower_row r)
      in AList.update ''is_rain'' (astype_int (is_positive (cell_at r2 ''precipitation''))) r2)"

definition post_cols :: "string list \<Rightarrow> string list" where
  "post_cols cols =
     (if ''is_rain'' \<in> set (map lower cols) then map lower cols else map lower cols @ [''is_rain''])"

text \<open>
  The shape of every table that the fetcher returns: the columns of \<open>USE_COLS\<close> and
  \<open>datetime\<close>, each once, in some order, and every row on these columns.
\<close>

definition station_shaped :: "frame \<Rightarrow> bool" where
  "station_shaped f =
     (distinct (columns f) \<and> set (columns f) = set (USE_COLS @ [''datetime''])
      \<and> (\<forall>r \<in> set (rows f). map fst r = columns f))"

text \<open>The events of one fetch that reaches the source.\<close>

definition fetch_events :: "string \<Rightarrow> event list" where
  "fetch_events sid = [Print ''station_url:'', HttpGet (STATION_FILE_TEMPLATE sid)]"

text \<open>The error of a run in which no station has data in the range.\<close>

definition NO_DATA :: error where
  "NO_DATA = ValueError ''No data found for the provided stations and date range.''"

text \<open>The table that the program writes, from the aggregated table.\<close>

definition final_table :: "pandas \<Rightarrow> frame \<Rightarrow> frame" where
  "final_table P df0 =
     \<lparr>columns = map lower (columns df0) @ [''is_rain''],
      rows = map (post_row P (columns df0)) (rows df0)\<rparr>"

text \<open>The station list in the words of the specification.\<close>

definition station_list_spec :: "string \<Rightarrow> string list" where
  "station_list_spec str = filter (\<lambda>s. s \<noteq> []) (map strip (split_on CHR '','' str))"

section \<open>Further inputs on the small remote source\<close>

text \<open>Further command lines on the small remote source.\<close>

definition demo_args_B :: args where
  "demo_args_B = \<lparr>arg_start = ''2024-01-01'', arg_end = ''2024-01-02'',
                  arg_stations = ''B'', arg_chunksize = 2\<rparr>"

definition demo_args_blank :: args where
  "demo_args_blank = \<lparr>arg_start = ''2024-01-01'', arg_end = ''2024-01-02'',
                      arg_stations = '' , '', arg_chunksize = 2\<rparr>"

text \<open>The rows of station \<open>A\<close>, twice.\<close>

definition demo_table_AA :: frame where
  "demo_table_AA = \<lparr>columns = columns demo_table_A, rows = rows demo_table_A @ rows demo_table_A\<rparr>"

section \<open>Facts about lists and tables\<close>

lemma concat_chunks_of: "0 < n \<Longrightarrow> concat (chunks_of n xs) = xs"
proof (induction n xs rule: chunks_of.induct)
  case (1 n xs)
  then show ?case by (subst chunks_of.simps) auto
qed

lemma chunk_bound: "ch \<in> set (chunks_of n xs) \<Longrightarrow> length ch \<le> n \<and> ch \<noteq> []"
proof (induction n xs rule: chunks_of.induct)
  case (1 n xs)
  show ?case
  proof (cases "n = 0 \<or> xs = []")
    case True
    with "1.prems" show ?thesis by (simp add: chunks_of.simps)
  next
    case False
    with "1.prems" have "ch = take n xs \<or> ch \<in> set (chunks_of n (drop n xs))"
      by (subst (asm) chunks_of.simps) simp
    with False "1.IH" show ?thesis by auto
  qed
qed

lemma zip_map_self: "map (\<lambda>(r, v). g r v) (zip xs (map f xs)) = map (\<lambda>r. g r (f r)) xs"
  by (induction xs) auto

lemma filter_by_mask: "map fst (filter snd (zip xs (map p xs))) = filter p xs"
  by (induction xs) auto

lemma list_ex_mask: "list_ex (\<lambda>b. b) (map p xs) = (filter p xs \<noteq> [])"
  by (induction xs) auto

lemma ordered_union_distinct: "distinct cs \<Longrightarrow> ordered_union cs = cs"
  by (simp add: ordered_union_def distinct_remdups_id)

lemma distinct_ordered_union: "distinct (ordered_union cs)"
  by (simp add: ordered_union_def)

lemma set_ordered_union: "set (ordered_union cs) = set cs"
  by (simp add: ordered_union_def)

lemma keys_reindex: "map fst (reindex cols r) = cols"
  by (simp add: reindex_def comp_def)

lemma reindex_id: "distinct (map fst r) \<Longrightarrow> reindex (map fst r) r = r"
  by (auto simp: reindex_def cell_at_def intro!: map_idI)

lemma keys_with_datetime:
  "map fst (with_datetime P r) =
     (if ''datetime'' \<in> set (map fst r) then map fst r else map fst r @ [''datetime''])"
  by (simp add: with_datetime_def update_keys)

section \<open>Facts about the station fetcher\<close>

lemma parse_datetime_frame_ok:
  assumes "set [''Year'', ''Month'', ''Day'', ''Hour'', ''Minute''] \<subseteq> set (columns ch)"
  shows "parse_datetime_frame P ch = Inr (map (row_datetime P) (rows ch))"
  using assms by (simp add: parse_datetime_frame_def)

lemma setitem_datetime:
  "setitem ch ''datetime'' (map (row_datetime P) (rows ch)) =
     \<lparr>columns = dt_cols (columns ch), rows = map (with_datetime P) (rows ch)\<rparr>"
  by (simp add: setitem_def dt_cols_def zip_map_self with_datetime_def)

lemma datetime_in_dt_cols: "''datetime'' \<in> set (dt_cols cols)"
  by (simp add: dt_cols_def)

lemma fetch_loop_step:
  assumes "set [''Year'', ''Month'', ''Day'', ''Hour'', ''Minute''] \<subseteq> set (columns ch)"
  shows "fetch_loop P s e (ch # chunks) kept =
           fetch_loop P s e chunks
             (if kept_rows P s e (rows ch) \<noteq> []
              then kept @ [\<lparr>columns = dt_cols (columns ch), rows = kept_rows P s e (rows ch)\<rparr>]
              else kept)"
proof -
  let ?ch' = "\<lparr>columns = dt_cols (columns ch), rows = map (with_datetime P) (rows ch)\<rparr>"
  have g: "getitem ?ch' ''datetime'' = Inr (map (\<lambda>r. cell_at r ''datetime'') (map (with_datetime P) (rows ch)))"
    by (simp add: getitem_def datetime_in_dt_cols series_def)
  have m: "map (\<lambda>v. ge_ts v s \<and> le_ts v e) (map (\<lambda>r. cell_at r ''datetime'') (map (with_datetime P) (rows ch)))
             = map (in_range s e) (map (with_datetime P) (rows ch))"
    by (simp add: in_range_def comp_def)
  let ?msk = "map (\<lambda>v. ge_ts v s \<and> le_ts v e)
                (map (\<lambda>r. cell_at r ''datetime'') (map (with_datetime P) (rows ch)))"
  have ex: "list_ex (\<lambda>b. b) ?msk = (kept_rows P s e (rows ch) \<noteq> [])"
    unfolding m kept_rows_def by (rule list_ex_mask)
  have l: "loc ?ch' ?msk = \<lparr>columns = dt_cols (columns ch), rows = kept_rows P s e (rows ch)\<rparr>"
    unfolding m loc_def kept_rows_def by (simp only: filter_by_mask frame.simps)
  show ?thesis
    by (simp only: fetch_loop.simps parse_datetime_frame_ok [OF assms] sum.case setitem_datetime
          Let_def g ex l)
qed

lemma fetch_loop_char:
  assumes "\<forall>ch \<in> set chunks. columns ch = cols"
    and "set [''Year'', ''Month'', ''Day'', ''Hour'', ''Minute''] \<subseteq> set cols"
  shows "fetch_loop P s e chunks kept =
           Inr (kept @ map (\<lambda>ch. \<lparr>columns = dt_cols cols, rows = kept_rows P s e (rows ch)\<rparr>)
                         (filter (\<lambda>ch. kept_rows P s e (rows ch) \<noteq> []) chunks))"
  using assms(1)
proof (induction chunks arbitrary: kept)
  case Nil
  then show ?case by simp
next
  case (Cons ch chunks)
  have c: "columns ch = cols" using Cons.prems by simp
  have sub: "set [''Year'', ''Month'', ''Day'', ''Hour'', ''Minute''] \<subseteq> set (columns ch)"
    using assms(2) c by simp
  have ih: "\<And>k. fetch_loop P s e chunks k =
           Inr (k @ map (\<lambda>ch. \<lparr>columns = dt_cols cols, rows = kept_rows P s e (rows ch)\<rparr>)
                         (filter (\<lambda>ch. kept_rows P s e (rows ch) \<noteq> []) chunks))"
    using Cons.IH Cons.prems by simp
  show ?case
    by (simp only: fetch_loop_step [OF sub] ih) (simp add: c)
qed

lemma kept_rows_append: "kept_rows P s e (xs @ ys) = kept_rows P s e xs @ kept_rows P s e ys"
  by (simp add: kept_rows_def)

lemma kept_rows_concat: "concat (map (kept_rows P s e) xss) = kept_rows P s e (concat xss)"
  by (induction xss) (simp_all add: kept_rows_append, simp add: kept_rows_def)

lemma concat_nonempty: "concat (map f (filter (\<lambda>x. f x \<noteq> []) xs)) = concat (map f xs)"
  by (induction xs) auto

lemma remdups_absorb: "set as \<subseteq> set bs \<Longrightarrow> remdups (as @ bs) = remdups bs"
  by (induction as) auto

lemma ordered_union_same:
  assumes "fs \<noteq> []" "\<forall>f \<in> set fs. columns f = C" "distinct C"
  shows "ordered_union (concat (map columns fs)) = C"
proof -
  obtain f fs' where fs: "fs = f # fs'" using assms(1) by (cases fs) auto
  have "set (concat (map columns fs')) \<subseteq> set C" using assms(2) fs by auto
  then have "remdups (rev (concat (map columns fs')) @ rev C) = remdups (rev C)"
    by (intro remdups_absorb) simp
  then show ?thesis using assms fs by (simp add: ordered_union_def distinct_remdups_id)
qed

lemma pd_concat_same:
  assumes "fs \<noteq> []" "\<forall>f \<in> set fs. columns f = C" "distinct C"
    and "\<forall>f \<in> set fs. \<forall>r \<in> set (rows f). map fst r = C"
  shows "pd_concat fs = Inr \<lparr>columns = C, rows = concat (map rows fs)\<rparr>"
proof -
  have "map (reindex C) (rows f) = rows f" if "f \<in> set fs" for f
    using that assms(3,4) reindex_id by (intro map_idI) fastforce
  then have "concat (map (\<lambda>f. map (reindex C) (rows f)) fs) = concat (map rows fs)"
    by (intro arg_cong [where f = concat] map_cong) auto
  then show ?thesis
    using assms(1) by (simp add: pd_concat_def ordered_union_same [OF assms(1-3)])
qed

lemma filter_nonempty_Nil: "(filter (\<lambda>x. f x \<noteq> []) xs = []) = (concat (map f xs) = [])"
  by (induction xs) auto

lemma datetime_not_use_col: "''datetime'' \<notin> set USE_COLS"
  by (simp add: USE_COLS_def)

lemma distinct_USE_COLS: "distinct USE_COLS"
  by (simp add: USE_COLS_def)

lemma units_in_USE_COLS: "set [''Year'', ''Month'', ''Day'', ''Hour'', ''Minute''] \<subseteq> set USE_COLS"
  by (simp add: USE_COLS_def)

lemma keys_kept_rows:
  assumes "\<forall>r \<in> set rs. map fst r = cols" "r \<in> set (kept_rows P s e rs)"
  shows "map fst r = dt_cols cols"
  using assms by (auto simp: kept_rows_def keys_with_datetime dt_cols_def)

lemma collect_chunks_char:
  assumes cols: "\<forall>ch \<in> set chunks. columns ch = sel"
    and fit: "\<forall>ch \<in> set chunks. \<forall>r \<in> set (rows ch). map fst r = sel"
    and sel: "distinct sel" "set sel = set USE_COLS"
  shows "collect_chunks P s e chunks =
           Inr (if kept_rows P s e (concat (map rows chunks)) = []
                then DataFrame (USE_COLS @ [''datetime''])
                else \<lparr>columns = sel @ [''datetime''],
                      rows = kept_rows P s e (concat (map rows chunks))\<rparr>)"
proof -
  let ?f = "\<lambda>ch. kept_rows P s e (rows ch)"
  let ?kept = "map (\<lambda>ch. \<lparr>columns = dt_cols sel, rows = ?f ch\<rparr>) (filter (\<lambda>ch. ?f ch \<noteq> []) chunks)"
  have dt: "dt_cols sel = sel @ [''datetime'']"
    using sel(2) datetime_not_use_col by (simp add: dt_cols_def)
  have d: "distinct (dt_cols sel)"
    using sel datetime_not_use_col by (simp add: dt)
  have units: "set [''Year'', ''Month'', ''Day'', ''Hour'', ''Minute''] \<subseteq> set sel"
    using units_in_USE_COLS sel(2) by simp
  have loop: "fetch_loop P s e chunks [] = Inr ?kept"
    using fetch_loop_char [OF cols units, of P s e "[]"] by simp
  have all: "concat (map rows ?kept) = kept_rows P s e (concat (map rows chunks))"
  proof -
    have "concat (map rows ?kept) = concat (map ?f (filter (\<lambda>ch. ?f ch \<noteq> []) chunks))"
      by (simp add: comp_def)
    also have "\<dots> = concat (map ?f chunks)" by (rule concat_nonempty)
    also have "\<dots> = concat (map (kept_rows P s e) (map rows chunks))" by (simp add: comp_def)
    also have "\<dots> = kept_rows P s e (concat (map rows chunks))" by (rule kept_rows_concat)
    finally show ?thesis .
  qed
  have nil: "(?kept = []) = (kept_rows P s e (concat (map rows chunks)) = [])"
  proof -
    have "(?kept = []) = (concat (map ?f chunks) = [])"
      using filter_nonempty_Nil [of ?f chunks] by simp
    also have "concat (map ?f chunks) = kept_rows P s e (concat (map rows chunks))"
      using kept_rows_concat [of P s e "map rows chunks"] by (simp add: comp_def)
    finally show ?thesis .
  qed
  have cat: "pd_concat ?kept = Inr \<lparr>columns = dt_cols sel, rows = concat (map rows ?kept)\<rparr>"
    if "?kept \<noteq> []"
  proof (rule pd_concat_same [OF that _ d])
    show "\<forall>f \<in> set ?kept. columns f = dt_cols sel" by auto
    show "\<forall>f \<in> set ?kept. \<forall>r \<in> set (rows f). map fst r = dt_cols sel"
    proof (intro ballI)
      fix f r assume "f \<in> set ?kept" "r \<in> set (rows f)"
      then obtain ch where ch: "ch \<in> set chunks" "r \<in> set (kept_rows P s e (rows ch))"
        by auto
      from fit ch(1) have "\<forall>r \<in> set (rows ch). map fst r = sel" by simp
      then show "map fst r = dt_cols sel" using ch(2) by (rule keys_kept_rows)
    qed
  qed
  show ?thesis
  proof (cases "?kept = []")
    case True
    then show ?thesis using nil by (simp add: collect_chunks_def loop)
  next
    case False
    then show ?thesis using nil cat [OF False] all
      by (simp add: collect_chunks_def loop dt)
  qed
qed

lemma read_csv_ok:
  assumes "1 \<le> cs" "W url cs = Inr fl" "set USE_COLS \<subseteq> set (columns fl)"
  shows "read_csv W url USE_COLS cs =
           ([HttpGet url],
            Inr (map (\<lambda>rs. \<lparr>columns = selected_cols fl, rows = rs\<rparr>)
                   (chunks_of (nat cs) (map (reindex (selected_cols fl)) (rows fl)))))"
proof -
  have "filter (\<lambda>c. c \<notin> set (columns fl)) USE_COLS = []"
    using assms(3) by (auto simp: filter_empty_conv)
  then show ?thesis
    using assms(1,2) by (simp add: read_csv_def selected_cols_def Let_def)
qed

lemma selected_cols_props:
  assumes "set USE_COLS \<subseteq> set (columns fl)"
  shows "distinct (selected_cols fl)" "set (selected_cols fl) = set USE_COLS"
  using assms by (auto simp: selected_cols_def distinct_ordered_union set_ordered_union)

lemma read_station_hourly_ok:
  assumes "1 \<le> cs" "W (STATION_FILE_TEMPLATE sid) cs = Inr fl" "set USE_COLS \<subseteq> set (columns fl)"
  shows "read_station_hourly P W sid s e cs =
           ([Print ''station_url:'', HttpGet (STATION_FILE_TEMPLATE sid)],
            Inr (station_table P s e fl))"
proof -
  let ?sel = "selected_cols fl"
  let ?chunks = "map (\<lambda>rs. \<lparr>columns = ?sel, rows = rs\<rparr>)
                   (chunks_of (nat cs) (map (reindex ?sel) (rows fl)))"
  have n: "0 < nat cs" using assms(1) by simp
  have rows: "concat (map rows ?chunks) = map (reindex ?sel) (rows fl)"
    using concat_chunks_of [OF n, of "map (reindex ?sel) (rows fl)"] by (simp add: comp_def)
  have fit: "\<forall>ch \<in> set ?chunks. \<forall>r \<in> set (rows ch). map fst r = ?sel"
  proof (intro ballI)
    fix ch r assume "ch \<in> set ?chunks" "r \<in> set (rows ch)"
    then have "r \<in> set (concat (map rows ?chunks))" by auto
    then show "map fst r = ?sel" unfolding rows by (auto simp: keys_reindex)
  qed
  have cols: "\<forall>ch \<in> set ?chunks. columns ch = ?sel" by auto
  have "collect_chunks P s e ?chunks = Inr (station_table P s e fl)"
    by (simp only: collect_chunks_char [OF cols fit selected_cols_props [OF assms(3)]] rows
          station_table_def station_rows_def)
  then show ?thesis
    by (simp add: read_station_hourly_def read_csv_ok [where url = "STATION_FILE_TEMPLATE sid" and W = W and fl = fl, OF assms])
qed

lemma cell_at_update: "cell_at (AList.update k v r) c = (if c = k then v else cell_at r c)"
  by (simp add: cell_at_def update_conv')

lemma cell_at_reindex: "c \<in> set cols \<Longrightarrow> cell_at (reindex cols r) c = cell_at r c"
  by (simp add: cell_at_def reindex_def map_of_map_restrict)

lemma cell_at_reindex_out: "c \<notin> set cols \<Longrightarrow> cell_at (reindex cols r) c = NaN"
  by (simp add: cell_at_def reindex_def map_of_map_restrict)

lemma row_datetime_reindex:
  "set [''Year'', ''Month'', ''Day'', ''Hour'', ''Minute''] \<subseteq> set cols \<Longrightarrow>
     row_datetime P (reindex cols r) = row_datetime P r"
  by (simp add: row_datetime_def cell_at_reindex)

lemma in_range_with_datetime:
  "in_range s e (with_datetime P r) = row_in_range P s e r"
  by (simp add: in_range_def with_datetime_def cell_at_update row_datetime_def stamp_cell_def
        row_in_range_def ge_ts_def le_ts_def split: option.splits)

lemma row_in_range_reindex:
  "set [''Year'', ''Month'', ''Day'', ''Hour'', ''Minute''] \<subseteq> set cols \<Longrightarrow>
     row_in_range P s e (reindex cols r) = row_in_range P s e r"
  by (simp add: row_in_range_def cell_at_reindex)

lemma kept_rows_filter:
  "kept_rows P s e rs = map (with_datetime P) (filter (row_in_range P s e) rs)"
  by (simp add: kept_rows_def filter_map comp_def in_range_with_datetime)

lemma units_in_selected:
  "set USE_COLS \<subseteq> set (columns fl) \<Longrightarrow>
     set [''Year'', ''Month'', ''Day'', ''Hour'', ''Minute''] \<subseteq> set (selected_cols fl)"
  using units_in_USE_COLS selected_cols_props(2) [of fl] by simp

lemma station_rows_filter:
  assumes "set USE_COLS \<subseteq> set (columns fl)"
  shows "station_rows P s e fl =
           map (\<lambda>r. with_datetime P (reindex (selected_cols fl) r)) (filter (row_in_range P s e) (rows fl))"
  by (simp add: station_rows_def kept_rows_filter filter_map comp_def
        row_in_range_reindex [OF units_in_selected [OF assms]])

lemma read_station_hourly_bad_chunksize:
  "cs < 1 \<Longrightarrow> read_station_hourly P W sid s e cs =
     ([Print ''station_url:''], Inl (ValueError ''chunksize must be an integer >=1''))"
  by (simp add: read_station_hourly_def read_csv_def)

lemma read_station_hourly_remote_error:
  "1 \<le> cs \<Longrightarrow> W (STATION_FILE_TEMPLATE sid) cs = Inl err \<Longrightarrow>
     read_station_hourly P W sid s e cs =
       ([Print ''station_url:'', HttpGet (STATION_FILE_TEMPLATE sid)], Inl err)"
  by (simp add: read_station_hourly_def read_csv_def)

lemma read_station_hourly_missing_cols:
  assumes "1 \<le> cs" "W (STATION_FILE_TEMPLATE sid) cs = Inr fl" "\<not> set USE_COLS \<subseteq> set (columns fl)"
  shows "read_station_hourly P W sid s e cs =
       ([Print ''station_url:'', HttpGet (STATION_FILE_TEMPLATE sid)],
        Inl (ValueError ''Usecols do not match columns''))"
proof -
  have "filter (\<lambda>c. c \<notin> set (columns fl)) USE_COLS \<noteq> []"
    using assms(3) by (auto simp: filter_empty_conv)
  then obtain c cs' where "filter (\<lambda>c. c \<notin> set (columns fl)) USE_COLS = c # cs'"
    by (cases "filter (\<lambda>c. c \<notin> set (columns fl)) USE_COLS") auto
  then show ?thesis using assms(1,2)
    by (simp add: read_station_hourly_def read_csv_def)
qed

lemma read_station_hourly_Inr:
  assumes "snd (read_station_hourly P W sid s e cs) = Inr f"
  shows "\<exists>fl. 1 \<le> cs \<and> W (STATION_FILE_TEMPLATE sid) cs = Inr fl \<and> set USE_COLS \<subseteq> set (columns fl)
            \<and> f = station_table P s e fl"
proof (cases "cs < 1")
  case True
  then show ?thesis using assms by (simp add: read_station_hourly_bad_chunksize)
next
  case False
  then have cs: "1 \<le> cs" by simp
  show ?thesis
  proof (cases "W (STATION_FILE_TEMPLATE sid) cs")
    case (Inl err)
    then show ?thesis using assms cs by (simp add: read_station_hourly_remote_error)
  next
    case (Inr fl)
    show ?thesis
    proof (cases "set USE_COLS \<subseteq> set (columns fl)")
      case True
      then show ?thesis using assms cs Inr by (simp add: read_station_hourly_ok)
    next
      case False
      then show ?thesis using assms cs Inr by (simp add: read_station_hourly_missing_cols)
    qed
  qed
qed

section \<open>The small remote source, evaluated\<close>

lemma template_inj: "(STATION_FILE_TEMPLATE a = STATION_FILE_TEMPLATE b) = (a = b)"
  by (simp add: STATION_FILE_TEMPLATE_def)

lemma demo_decimals:
  "decimal_of_text ''A'' = None" "decimal_of_text ''B'' = None" "decimal_of_text ''C'' = None"
  "decimal_of_text ''NY CITY CENTRAL PARK'' = None" "decimal_of_text ''abc'' = None"
  "decimal_of_text ''2022'' = Some 2022" "decimal_of_text ''2023'' = Some 2023"
  "decimal_of_text ''2024'' = Some 2024"
  "decimal_of_text ''0'' = Some 0" "decimal_of_text ''1'' = Some 1"
  "decimal_of_text ''2'' = Some 2" "decimal_of_text ''3'' = Some 3"
  "decimal_of_text ''5'' = Some 5" "decimal_of_text ''6'' = Some 6"
  "decimal_of_text ''7'' = Some 7" "decimal_of_text ''10'' = Some 10"
  "decimal_of_text ''11'' = Some 11" "decimal_of_text ''12'' = Some 12"
  "decimal_of_text ''13'' = Some 13" "decimal_of_text ''20'' = Some 20"
  "decimal_of_text ''23'' = Some 23" "decimal_of_text ''30'' = Some 30"
  "decimal_of_text ''31'' = Some 31" "decimal_of_text ''59'' = Some 59"
  "decimal_of_text ''61'' = Some 61" "decimal_of_text ''1012'' = Some 1012"
  "decimal_of_text ''1017'' = Some 1017"
  "decimal_of_text ''0.0'' = Some 0" "decimal_of_text ''0.2'' = Some (1 / 5)"
  "decimal_of_text ''0.5'' = Some (1 / 2)" "decimal_of_text ''4.5'' = Some (9 / 2)"
  "decimal_of_text ''-1.1'' = Some (- 11 / 10)" "decimal_of_text ''42.7'' = Some (427 / 10)"
  "decimal_of_text ''40.7789'' = Some (407789 / 10000)"
  "decimal_of_text ''-73.9692'' = Some (- 739692 / 10000)"
  by (simp_all add: decimal_of_text_def nat_of_text_def digit_of_def Let_def)

lemma demo_parse_A: "parse_in_chunks 2 demo_psv_A = demo_A"
  by (simp add: parse_in_chunks_def infer_chunk_def numeric_field_def psv_field_def
        demo_psv_A_def demo_A_def demo_line_def demo_record_def demo_header_def
        chunks_of.simps cell_at_def to_numeric_def pd_ref_def demo_decimals)


lemma demo_parse_B: "parse_in_chunks 2 demo_psv_B = demo_B"
  by (simp add: parse_in_chunks_def infer_chunk_def numeric_field_def psv_field_def
        demo_psv_B_def demo_B_def demo_line_def demo_record_def demo_header_def
        chunks_of.simps cell_at_def to_numeric_def pd_ref_def demo_decimals)



lemma demo_remote_A: "demo_remote (STATION_FILE_TEMPLATE ''A'') 2 = Inr demo_A"
  by (simp add: demo_remote_def demo_parse_A)


lemma demo_remote_B: "demo_remote (STATION_FILE_TEMPLATE ''B'') 2 = Inr demo_B"
  by (simp add: demo_remote_def template_inj demo_parse_B)


lemma demo_A_cols: "set USE_COLS \<subseteq> set (columns demo_A)"
  by code_simp

lemma demo_B_cols: "set USE_COLS \<subseteq> set (columns demo_B)"
  by code_simp

lemma demo_station_table_A: "station_table pd_ref demo_start demo_end demo_A = demo_table_A"
  by code_simp





lemma demo_station_table_B:
  "station_table pd_ref demo_start demo_end demo_B = DataFrame (USE_COLS @ [''datetime''])"
  by code_simp

lemma demo_post_process: "post_process pd_ref demo_table_A = Inr demo_out"
  by code_simp

lemma demo_concat: "pd_concat [demo_table_A] = Inr demo_table_A"
  by code_simp

lemma demo_B_out_of_range: "\<forall>r \<in> set (rows demo_B). \<not> row_in_range pd_ref demo_start demo_end r"
  by code_simp

section \<open>Facts about the post-processor\<close>

lemma frame_eta: "\<lparr>columns = columns df, rows = rows df\<rparr> = (df :: frame)"
  by simp

lemma setitem_pointwise:
  "setitem df c (map g (series df k)) =
     \<lparr>columns = (if c \<in> set (columns df) then columns df else columns df @ [c]),
      rows = map (\<lambda>r. AList.update c (g (cell_at r k)) r) (rows df)\<rparr>"
  by (simp add: setitem_def series_def zip_map_self)

lemma coerce_row_Cons:
  "coerce_row P (c # cs) r = coerce_row P cs (AList.update c (to_numeric P (cell_at r c)) r)"
  by (simp add: coerce_row_def)

lemma coerce_loop_char:
  "coerce_loop P cols df =
     \<lparr>columns = columns df,
      rows = map (coerce_row P (filter (\<lambda>c. c \<in> set (columns df)) cols)) (rows df)\<rparr>"
proof (induction cols arbitrary: df)
  case Nil
  then show ?case by (simp add: coerce_row_def)
next
  case (Cons col cols)
  show ?case
  proof (cases "col \<in> set (columns df)")
    case True
    then show ?thesis
      by (simp add: Cons.IH setitem_pointwise coerce_row_Cons comp_def)
  next
    case False
    then show ?thesis by (simp add: Cons.IH)
  qed
qed

lemma to_numeric_shape: "to_numeric P v = NaN \<or> (\<exists>x. to_numeric P v = Num x)"
  by (cases v) (auto simp: to_numeric_def split: option.splits)

lemma to_numeric_idem: "to_numeric P (to_numeric P v) = to_numeric P v"
  by (cases v) (auto simp: to_numeric_def split: option.splits)

lemma cell_at_coerce_row:
  "cell_at (coerce_row P cs r) k = (if k \<in> set cs then to_numeric P (cell_at r k) else cell_at r k)"
proof (induction cs arbitrary: r)
  case Nil
  then show ?case by (simp add: coerce_row_def)
next
  case (Cons c cs)
  show ?case
    by (simp add: coerce_row_Cons Cons.IH cell_at_update to_numeric_idem)
qed

lemma keys_update_present: "k \<in> set (map fst r) \<Longrightarrow> map fst (AList.update k v r) = map fst r"
  by (simp add: update_keys)

lemma keys_coerce_row: "set cs \<subseteq> set (map fst r) \<Longrightarrow> map fst (coerce_row P cs r) = map fst r"
proof (induction cs arbitrary: r)
  case Nil
  then show ?case by (simp add: coerce_row_def)
next
  case (Cons c cs)
  let ?r = "AList.update c (to_numeric P (cell_at r c)) r"
  have k: "map fst ?r = map fst r" using Cons.prems by (simp add: update_keys)
  then have "set cs \<subseteq> set (map fst ?r)" using Cons.prems by simp
  then have "map fst (coerce_row P cs ?r) = map fst ?r" by (rule Cons.IH)
  then show ?case by (simp only: coerce_row_Cons k)
qed

lemma gt_zero_numeric:
  "\<forall>v \<in> set vs. v = NaN \<or> (\<exists>x. v = Num x) \<Longrightarrow> gt_zero vs = Inr (map is_positive vs)"
  by (induction vs) (auto simp: is_positive_def)

lemma gt_zero_Inr: "gt_zero vs = Inr bs \<Longrightarrow> bs = map is_positive vs"
proof (induction vs arbitrary: bs)
  case Nil
  then show ?case by simp
next
  case (Cons v vs)
  then show ?case
    by (cases v) (auto simp: is_positive_def split: sum.splits)
qed

lemma post_process_char:
  "post_process P df0 =
     (if ''precipitation'' \<in> set (map lower (columns df0))
      then Inr \<lparr>columns = post_cols (columns df0), rows = map (post_row P (columns df0)) (rows df0)\<rparr>
      else Inl (KeyError ''precipitation''))"
proof -
  let ?cs = "filter (\<lambda>c. c \<in> set (map lower (columns df0))) MEASUREMENT_COLS"
  let ?rows = "map (coerce_row P ?cs) (map lower_row (rows df0))"
  let ?df = "\<lparr>columns = map lower (columns df0), rows = ?rows\<rparr>"
  have df: "coerce_loop P MEASUREMENT_COLS (lower_columns df0) = ?df"
    by (simp add: coerce_loop_char lower_columns_def lower_row_def)
  show ?thesis
  proof (cases "''precipitation'' \<in> set (map lower (columns df0))")
    case False
    then show ?thesis by (simp add: post_process_def df getitem_def Let_def)
  next
    case True
    then have mem: "''precipitation'' \<in> set ?cs" by (simp add: MEASUREMENT_COLS_def)
    have ser: "series ?df ''precipitation'' =
                 map (\<lambda>r. to_numeric P (cell_at (lower_row r) ''precipitation'')) (rows df0)"
      using mem by (simp add: series_def cell_at_coerce_row comp_def)
    have gt: "gt_zero (series ?df ''precipitation'') = Inr (map is_positive (series ?df ''precipitation''))"
      unfolding ser by (rule gt_zero_numeric) (use to_numeric_shape in auto)
    have set: "setitem ?df ''is_rain'' (map astype_int (map is_positive (series ?df ''precipitation'')))
                = \<lparr>columns = post_cols (columns df0), rows = map (post_row P (columns df0)) (rows df0)\<rparr>"
    proof -
      have "map astype_int (map is_positive (series ?df ''precipitation''))
              = map (\<lambda>v. astype_int (is_positive v)) (series ?df ''precipitation'')"
        by simp
      then show ?thesis
        by (simp only: setitem_pointwise)
           (simp add: post_cols_def post_row_def Let_def comp_def)
    qed
    show ?thesis using True
      by (simp only: post_process_def df Let_def getitem_def frame.simps if_True sum.case gt set)
  qed
qed

section \<open>Facts about the loop over the stations\<close>

lemma distinct_station_cols: "distinct (USE_COLS @ [''datetime''])"
  by (simp add: USE_COLS_def)

lemma station_table_shaped:
  assumes "set USE_COLS \<subseteq> set (columns fl)"
  shows "station_shaped (station_table P s e fl)"
proof (cases "station_rows P s e fl = []")
  case True
  then show ?thesis
    using distinct_station_cols by (simp add: station_table_def station_shaped_def DataFrame_def)
next
  case False
  have sel: "distinct (selected_cols fl)" "set (selected_cols fl) = set USE_COLS"
    using selected_cols_props [OF assms] by simp_all
  have dt: "dt_cols (selected_cols fl) = selected_cols fl @ [''datetime'']"
    using sel(2) datetime_not_use_col by (simp add: dt_cols_def)
  have fit: "\<forall>r \<in> set (map (reindex (selected_cols fl)) (rows fl)). map fst r = selected_cols fl"
    by (simp add: keys_reindex)
  have "map fst r = selected_cols fl @ [''datetime'']" if "r \<in> set (station_rows P s e fl)" for r
    using keys_kept_rows [OF fit] that dt by (simp add: station_rows_def)
  then show ?thesis
    using False sel datetime_not_use_col by (simp add: station_table_def station_shaped_def)
qed

lemma station_table_in_range:
  "r \<in> set (rows (station_table P s e fl)) \<Longrightarrow> in_range s e r"
  by (auto simp: station_table_def DataFrame_def station_rows_def kept_rows_def split: if_splits)

lemma read_Inr_events:
  assumes "snd (read_station_hourly P W sid s e cs) = Inr f"
  shows "read_station_hourly P W sid s e cs = (fetch_events sid, Inr f)"
proof -
  obtain fl where fl: "1 \<le> cs" "W (STATION_FILE_TEMPLATE sid) cs = Inr fl"
      "set USE_COLS \<subseteq> set (columns fl)" "f = station_table P s e fl"
    using read_station_hourly_Inr [OF assms] by blast
  show ?thesis
    using read_station_hourly_ok [where W = W and sid = sid, OF fl(1-3)] fl(4)
    by (simp add: fetch_events_def)
qed

lemma read_Inr_shaped:
  assumes "snd (read_station_hourly P W sid s e cs) = Inr f"
  shows "station_shaped f" and "\<forall>r \<in> set (rows f). in_range s e r"
proof -
  obtain fl where fl: "set USE_COLS \<subseteq> set (columns fl)" "f = station_table P s e fl"
    using read_station_hourly_Inr [OF assms] by blast
  show "station_shaped f" using fl station_table_shaped by simp
  show "\<forall>r \<in> set (rows f). in_range s e r" using fl(2) station_table_in_range by blast
qed

lemma read_events_subset:
  "set (fst (read_station_hourly P W sid s e cs)) \<subseteq> set (fetch_events sid)"
proof (cases "cs < 1")
  case True
  then show ?thesis by (simp add: read_station_hourly_bad_chunksize fetch_events_def)
next
  case False
  then have cs: "1 \<le> cs" by simp
  show ?thesis
  proof (cases "W (STATION_FILE_TEMPLATE sid) cs")
    case (Inl err)
    then show ?thesis using cs by (simp add: read_station_hourly_remote_error fetch_events_def)
  next
    case (Inr fl)
    show ?thesis
    proof (cases "set USE_COLS \<subseteq> set (columns fl)")
      case True
      then show ?thesis using cs Inr by (simp add: read_station_hourly_ok fetch_events_def)
    next
      case False
      then show ?thesis using cs Inr
        by (simp add: read_station_hourly_missing_cols fetch_events_def)
    qed
  qed
qed

lemma shaped_not_empty: "station_shaped f \<Longrightarrow> df_empty f = (rows f = [])"
  by (auto simp: station_shaped_def df_empty_def)

lemma station_loop_char:
  assumes "\<forall>sid \<in> set ids. snd (read_station_hourly P W sid s e cs) = Inr (F sid)"
  shows "station_loop P W s e cs ids frames =
           (concat (map fetch_events ids),
            Inr (frames @ filter (\<lambda>f. \<not> df_empty f) (map F ids)))"
  using assms
proof (induction ids arbitrary: frames)
  case Nil
  then show ?case by simp
next
  case (Cons sid ids)
  have r: "read_station_hourly P W sid s e cs = (fetch_events sid, Inr (F sid))"
    using Cons.prems by (intro read_Inr_events) simp
  have ih: "\<And>fr. station_loop P W s e cs ids fr =
           (concat (map fetch_events ids), Inr (fr @ filter (\<lambda>f. \<not> df_empty f) (map F ids)))"
    using Cons.IH Cons.prems by simp
  show ?case by (simp add: r ih)
qed

lemma station_loop_Cons_Inl:
  "read_station_hourly P W sid s e cs = (ev1, Inl err) \<Longrightarrow>
     station_loop P W s e cs (sid # ids) frames = (ev1, Inl err)"
  by (simp only: station_loop.simps prod.case sum.case)

lemma station_loop_Cons_Inr:
  "read_station_hourly P W sid s e cs = (ev1, Inr f) \<Longrightarrow>
     station_loop P W s e cs (sid # ids) frames =
       (case station_loop P W s e cs ids (if \<not> df_empty f then frames @ [f] else frames) of
          (ev', r') \<Rightarrow> (ev1 @ ev', r'))"
  by (simp only: station_loop.simps prod.case sum.case)

lemma station_loop_invariant:
  assumes "station_loop P W s e cs ids frames = (ev, Inr out)"
    and "\<forall>f \<in> set frames. Q f"
    and "\<And>sid f. snd (read_station_hourly P W sid s e cs) = Inr f \<Longrightarrow> Q f"
  shows "\<forall>f \<in> set out. Q f"
  using assms(1,2)
proof (induction ids arbitrary: frames ev)
  case Nil
  then show ?case by simp
next
  case (Cons sid ids)
  obtain ev1 r1 where r: "read_station_hourly P W sid s e cs = (ev1, r1)"
    by (cases "read_station_hourly P W sid s e cs")
  show ?case
  proof (cases r1)
    case (Inl err)
    have "station_loop P W s e cs (sid # ids) frames = (ev1, Inl err)"
      using r Inl by (intro station_loop_Cons_Inl) simp
    then show ?thesis using Cons.prems(1) by simp
  next
    case (Inr f)
    have rf: "read_station_hourly P W sid s e cs = (ev1, Inr f)" using r Inr by simp
    then have "snd (read_station_hourly P W sid s e cs) = Inr f" by simp
    then have q: "Q f" by (rule assms(3))
    let ?fr = "if \<not> df_empty f then frames @ [f] else frames"
    note step = station_loop_Cons_Inr [OF rf, of ids frames]
    obtain ev2 r2 where l0: "station_loop P W s e cs ids ?fr = (ev2, r2)"
      by (cases "station_loop P W s e cs ids ?fr")
    have "(ev1 @ ev2, r2) = (ev, Inr out)"
      using Cons.prems(1) unfolding step l0 by simp
    then have l: "station_loop P W s e cs ids ?fr = (ev2, Inr out)" using l0 by simp
    have fr: "\<forall>g \<in> set ?fr. Q g" using Cons.prems(2) q by simp
    show ?thesis by (rule Cons.IH [OF l fr])
  qed
qed

lemma station_loop_events:
  "set (fst (station_loop P W s e cs ids frames)) \<subseteq> (\<Union>sid \<in> set ids. set (fetch_events sid))"
proof (induction ids arbitrary: frames)
  case Nil
  then show ?case by simp
next
  case (Cons sid ids)
  obtain ev1 r1 where r: "read_station_hourly P W sid s e cs = (ev1, r1)"
    by (cases "read_station_hourly P W sid s e cs")
  have e1: "set ev1 \<subseteq> set (fetch_events sid)"
    using read_events_subset [of P W sid s e cs] r by simp
  show ?case
  proof (cases r1)
    case (Inl err)
    then show ?thesis using r e1 by auto
  next
    case (Inr f)
    let ?fr = "if \<not> df_empty f then frames @ [f] else frames"
    have "set (fst (station_loop P W s e cs ids ?fr)) \<subseteq> (\<Union>sid \<in> set ids. set (fetch_events sid))"
      by (rule Cons.IH)
    then show ?thesis using r Inr e1 by (auto split: prod.splits)
  qed
qed

lemma ordered_union_first:
  assumes "fs \<noteq> []" "\<forall>f \<in> set fs. set (columns f) = S" "distinct (columns (hd fs))"
  shows "ordered_union (concat (map columns fs)) = columns (hd fs)"
proof -
  obtain f fs' where fs: "fs = f # fs'" using assms(1) by (cases fs) auto
  have "set (concat (map columns fs')) \<subseteq> set (columns f)" using assms(2) fs by auto
  then have "remdups (rev (concat (map columns fs')) @ rev (columns f)) = remdups (rev (columns f))"
    by (intro remdups_absorb) simp
  then show ?thesis using assms(3) fs by (simp add: ordered_union_def distinct_remdups_id)
qed

lemma pd_concat_shaped:
  assumes "fs \<noteq> []" "\<forall>f \<in> set fs. station_shaped f"
  shows "pd_concat fs =
           Inr \<lparr>columns = columns (hd fs),
                rows = concat (map (\<lambda>f. map (reindex (columns (hd fs))) (rows f)) fs)\<rparr>"
proof -
  have "hd fs \<in> set fs" using assms(1) by simp
  then have d: "distinct (columns (hd fs))" using assms(2) by (simp add: station_shaped_def)
  have "\<forall>f \<in> set fs. set (columns f) = set (USE_COLS @ [''datetime''])"
    using assms(2) by (simp add: station_shaped_def)
  then have "ordered_union (concat (map columns fs)) = columns (hd fs)"
    using ordered_union_first [OF assms(1) _ d] by blast
  then show ?thesis using assms(1) by (simp add: pd_concat_def Let_def)
qed

lemma cell_at_absent: "c \<notin> set (map fst r) \<Longrightarrow> cell_at r c = NaN"
  by (simp add: cell_at_def map_of_eq_None_iff [THEN iffD2])

lemma cell_at_reindex_same:
  "set (map fst r) = set cols \<Longrightarrow> cell_at (reindex cols r) c = cell_at r c"
  by (cases "c \<in> set cols") (simp_all add: cell_at_reindex cell_at_reindex_out cell_at_absent)

lemma reindex_shaped:
  "station_shaped f \<Longrightarrow> station_shaped g \<Longrightarrow> r \<in> set (rows g) \<Longrightarrow>
     cell_at (reindex (columns f) r) c = cell_at r c"
  by (intro cell_at_reindex_same) (simp add: station_shaped_def)

lemma reindex_own_columns:
  assumes "station_shaped f" "r \<in> set (rows f)"
  shows "reindex (columns f) r = r"
proof -
  have k: "map fst r = columns f" using assms unfolding station_shaped_def by blast
  have "distinct (columns f)" using assms(1) unfolding station_shaped_def by blast
  then have "distinct (map fst r)" by (simp only: k)
  then have "reindex (map fst r) r = r" by (rule reindex_id)
  then show ?thesis by (simp only: k)
qed

lemma pd_concat_single:
  assumes "station_shaped f"
  shows "pd_concat [f] = Inr f"
proof -
  have m: "map (reindex (columns f)) (rows f) = rows f"
    by (rule map_idI) (rule reindex_own_columns [OF assms])
  have 1: "[f] \<noteq> []" by simp
  have 2: "\<forall>g \<in> set [f]. station_shaped g" using assms by simp
  have "pd_concat [f] = Inr \<lparr>columns = columns f, rows = map (reindex (columns f)) (rows f)\<rparr>"
    using pd_concat_shaped [OF 1 2] by simp
  then show ?thesis by (simp only: m frame_eta)
qed

lemma aggregate_char:
  assumes "\<forall>sid \<in> set ids. snd (read_station_hourly P W sid s e cs) = Inr (F sid)"
  shows "aggregate P W s e cs ids =
           (concat (map fetch_events ids),
            if filter (\<lambda>f. \<not> df_empty f) (map F ids) = [] then Inl NO_DATA
            else pd_concat (filter (\<lambda>f. \<not> df_empty f) (map F ids)))"
  by (simp add: aggregate_def station_loop_char [OF assms] NO_DATA_def)

lemma in_range_reindex:
  "''datetime'' \<in> set cols \<Longrightarrow> in_range s e (reindex cols r) = in_range s e r"
  by (simp add: in_range_def cell_at_reindex)

lemma datetime_in_shaped: "station_shaped f \<Longrightarrow> ''datetime'' \<in> set (columns f)"
  by (simp add: station_shaped_def)

lemma pd_concat_shaped_result:
  assumes "fs \<noteq> []" "\<forall>f \<in> set fs. station_shaped f" "pd_concat fs = Inr df"
  shows "station_shaped df"
    and "columns df = columns (hd fs)"
    and "rows df = concat (map (\<lambda>f. map (reindex (columns (hd fs))) (rows f)) fs)"
proof -
  have df: "df = \<lparr>columns = columns (hd fs),
                rows = concat (map (\<lambda>f. map (reindex (columns (hd fs))) (rows f)) fs)\<rparr>"
    using pd_concat_shaped [OF assms(1,2)] assms(3) by simp
  show c: "columns df = columns (hd fs)" by (simp add: df)
  show r: "rows df = concat (map (\<lambda>f. map (reindex (columns (hd fs))) (rows f)) fs)"
    by (simp add: df)
  have "hd fs \<in> set fs" using assms(1) by simp
  then have h: "station_shaped (hd fs)" using assms(2) by blast
  have "\<forall>r \<in> set (rows df). map fst r = columns df"
    unfolding r c by (auto simp: keys_reindex)
  then show "station_shaped df"
    using h unfolding station_shaped_def c by blast
qed

lemma aggregate_Inr:
  assumes "aggregate P W s e cs ids = (ev, Inr df)"
  shows "station_shaped df" and "\<forall>r \<in> set (rows df). in_range s e r"
proof -
  let ?Q = "\<lambda>f. station_shaped f \<and> (\<forall>r \<in> set (rows f). in_range s e r)"
  obtain ev' res where l: "station_loop P W s e cs ids [] = (ev', res)"
    by (cases "station_loop P W s e cs ids []")
  have "\<exists>frames. res = Inr frames \<and> frames \<noteq> [] \<and> pd_concat frames = Inr df"
    using assms unfolding aggregate_def l by (cases res) (auto split: if_splits)
  then obtain frames where fr: "res = Inr frames" "frames \<noteq> []" "pd_concat frames = Inr df"
    by blast
  have l': "station_loop P W s e cs ids [] = (ev', Inr frames)" using l fr(1) by simp
  have q: "\<forall>f \<in> set frames. ?Q f"
  proof (rule station_loop_invariant [OF l'])
    show "\<forall>f \<in> set []. ?Q f" by simp
    show "?Q f" if "snd (read_station_hourly P W sid s e cs) = Inr f" for sid f
      using read_Inr_shaped [OF that] by simp
  qed
  then have sh: "\<forall>f \<in> set frames. station_shaped f" by blast
  note res = pd_concat_shaped_result [OF fr(2) sh fr(3)]
  show "station_shaped df" by (rule res(1))
  have "hd frames \<in> set frames" using fr(2) by simp
  then have dt: "''datetime'' \<in> set (columns (hd frames))" using sh datetime_in_shaped by blast
  show "\<forall>r \<in> set (rows df). in_range s e r"
    unfolding res(3) using q by (auto simp: in_range_reindex [OF dt])
qed

section \<open>Lower-case column names on the tables of the program\<close>

lemma lowered_station_cols:
  "map lower (USE_COLS @ [''datetime'']) =
     [''station_id'', ''station_name'', ''year'', ''month'', ''day'', ''hour'', ''minute'',
      ''latitude'', ''longitude'', ''elevation'', ''temperature'', ''dew_point_temperature'',
      ''station_level_pressure'', ''sea_level_pressure'', ''wind_speed'', ''wind_gust'',
      ''precipitation'', ''relative_humidity'', ''datetime'']"
  by code_simp

lemma lower_inj_station: "inj_on lower (set (USE_COLS @ [''datetime'']))"
proof -
  have "distinct (map lower (USE_COLS @ [''datetime'']))"
    unfolding lowered_station_cols by simp
  then show ?thesis by (simp only: distinct_map)
qed

lemma lowered_shaped:
  assumes "station_shaped f"
  shows "set (map lower (columns f)) = set (map lower (USE_COLS @ [''datetime'']))"
proof -
  have "set (columns f) = set (USE_COLS @ [''datetime''])"
    using assms unfolding station_shaped_def by blast
  then show ?thesis by (simp only: set_map)
qed

lemma measurement_in_lowered:
  assumes "station_shaped f"
  shows "filter (\<lambda>c. c \<in> set (map lower (columns f))) MEASUREMENT_COLS = MEASUREMENT_COLS"
  unfolding lowered_shaped [OF assms] lowered_station_cols by (simp add: MEASUREMENT_COLS_def)

lemma precipitation_in_lowered:
  assumes "station_shaped f"
  shows "''precipitation'' \<in> set (map lower (columns f))"
  unfolding lowered_shaped [OF assms] lowered_station_cols by simp

lemma is_rain_not_lowered:
  assumes "station_shaped f"
  shows "''is_rain'' \<notin> set (map lower (columns f))"
  unfolding lowered_shaped [OF assms] lowered_station_cols by simp

lemma post_process_shaped:
  assumes "station_shaped df0"
  shows "post_process P df0 = Inr (final_table P df0)"
  using precipitation_in_lowered [OF assms] is_rain_not_lowered [OF assms]
  by (simp add: post_process_char final_table_def post_cols_def)

lemma map_of_lower_row:
  assumes "inj_on lower (insert c (set (map fst r)))"
  shows "map_of (lower_row r) (lower c) = map_of r c"
  using assms
proof (induction r)
  case Nil
  then show ?case by (simp add: lower_row_def)
next
  case (Cons p r)
  obtain k v where p: "p = (k, v)" by (cases p)
  have inj: "inj_on lower (insert c (set (map fst r)))"
    using Cons.prems by (rule inj_on_subset) auto
  have ih: "map_of (lower_row r) (lower c) = map_of r c" using Cons.IH [OF inj] .
  have eq: "(lower c = lower k) = (c = k)"
    using Cons.prems p by (auto simp: inj_on_def)
  have "lower_row (p # r) = (lower k, v) # lower_row r" by (simp add: lower_row_def p)
  then show ?case using ih eq by (simp add: p)
qed

lemma cell_at_lower_row:
  assumes "inj_on lower (set (map fst r))" "c \<in> set (map fst r)"
  shows "cell_at (lower_row r) (lower c) = cell_at r c"
proof -
  have "insert c (set (map fst r)) = set (map fst r)" using assms(2) by auto
  then have "inj_on lower (insert c (set (map fst r)))" using assms(1) by simp
  then show ?thesis by (simp add: cell_at_def map_of_lower_row)
qed

lemma is_rain_of_post_row:
  "cell_at (post_row P cols r) ''is_rain'' =
     astype_int (is_positive (cell_at (post_row P cols r) ''precipitation''))"
  by (simp add: post_row_def Let_def cell_at_update)

lemma precipitation_numeric:
  assumes "''precipitation'' \<in> set (map lower cols)"
  shows "cell_at (post_row P cols r) ''precipitation'' = NaN
       \<or> (\<exists>x. cell_at (post_row P cols r) ''precipitation'' = Num x)"
proof -
  have "''precipitation'' \<in> set (filter (\<lambda>c. c \<in> set (map lower cols)) MEASUREMENT_COLS)"
    using assms by (simp add: MEASUREMENT_COLS_def)
  then have "cell_at (post_row P cols r) ''precipitation''
               = to_numeric P (cell_at (lower_row r) ''precipitation'')"
    by (simp add: post_row_def Let_def cell_at_update cell_at_coerce_row)
  then show ?thesis using to_numeric_shape [of P "cell_at (lower_row r) ''precipitation''"]
    by simp
qed

lemma astype_int_positive:
  "astype_int (is_positive v) = Num (if (\<exists>x. v = Num x \<and> 0 < x) then 1 else 0)"
  by (cases v) (simp_all add: astype_int_def is_positive_def)

lemma cell_at_post_row:
  assumes "station_shaped df0" "r \<in> set (rows df0)" "c \<in> set (columns df0)"
  shows "cell_at (post_row P (columns df0) r) (lower c) =
           (if lower c \<in> set MEASUREMENT_COLS then to_numeric P (cell_at r c) else cell_at r c)"
proof -
  have k: "map fst r = columns df0" using assms(1,2) unfolding station_shaped_def by blast
  have s: "set (columns df0) = set (USE_COLS @ [''datetime''])"
    using assms(1) unfolding station_shaped_def by blast
  have inj: "inj_on lower (set (map fst r))" unfolding k s by (rule lower_inj_station)
  have c: "c \<in> set (map fst r)" using assms(3) k by simp
  have low: "cell_at (lower_row r) (lower c) = cell_at r c"
    by (rule cell_at_lower_row [OF inj c])
  have "lower c \<in> set (map lower (columns df0))" using assms(3) by simp
  then have ne: "lower c \<noteq> ''is_rain''" using is_rain_not_lowered [OF assms(1)] by metis
  have pr: "post_row P (columns df0) r =
              (let r2 = coerce_row P MEASUREMENT_COLS (lower_row r)
               in AList.update ''is_rain'' (astype_int (is_positive (cell_at r2 ''precipitation''))) r2)"
    by (simp only: post_row_def measurement_in_lowered [OF assms(1)])
  show ?thesis
    by (simp add: pr Let_def cell_at_update ne cell_at_coerce_row low)
qed

section \<open>The aggregator on the small remote source\<close>

lemma demo_read_A:
  "read_station_hourly pd_ref demo_remote ''A'' demo_start demo_end 2 =
     (fetch_events ''A'', Inr demo_table_A)"
proof -
  have b: "(1::int) \<le> 2" by simp
  show ?thesis
    by (simp add: read_station_hourly_ok [where W = demo_remote and sid = "''A''",
            OF b demo_remote_A demo_A_cols] demo_station_table_A fetch_events_def)
qed

lemma demo_read_B:
  "read_station_hourly pd_ref demo_remote ''B'' demo_start demo_end 2 =
     (fetch_events ''B'', Inr (DataFrame (USE_COLS @ [''datetime''])))"
proof -
  have b: "(1::int) \<le> 2" by simp
  show ?thesis
    by (simp add: read_station_hourly_ok [where W = demo_remote and sid = "''B''",
            OF b demo_remote_B demo_B_cols] demo_station_table_B fetch_events_def)
qed

lemma demo_table_A_not_empty: "\<not> df_empty demo_table_A"
  by (simp add: df_empty_def demo_table_A_def)

lemma empty_DataFrame: "df_empty (DataFrame cols)"
  by (simp add: df_empty_def DataFrame_def)

lemma demo_aggregate:
  "aggregate pd_ref demo_remote demo_start demo_end 2 [''A'', ''B''] =
     (fetch_events ''A'' @ fetch_events ''B'', Inr demo_table_A)"
  by (simp add: aggregate_def demo_read_A demo_read_B demo_table_A_not_empty empty_DataFrame
        demo_concat)

section \<open>Facts about the program\<close>

lemma in_range_stamp:
  "in_range s e r = (\<exists>t. cell_at r ''datetime'' = Stamp t \<and> s \<le> t \<and> t \<le> e)"
  by (cases "cell_at r ''datetime''") (auto simp: in_range_def ge_ts_def le_ts_def)

lemma aggregate_events:
  "set (fst (aggregate P W s e cs ids)) \<subseteq> (\<Union>sid \<in> set ids. set (fetch_events sid))"
proof -
  obtain ev res where l: "station_loop P W s e cs ids [] = (ev, res)"
    by (cases "station_loop P W s e cs ids []")
  have "fst (aggregate P W s e cs ids) = ev"
    unfolding aggregate_def l by (cases res) simp_all
  then show ?thesis using station_loop_events [of P W s e cs ids "[]"] l by simp
qed

lemma no_write_in_fetch: "WriteParquet path df \<notin> (\<Union>sid \<in> set ids. set (fetch_events sid))"
  by (simp add: fetch_events_def)

lemma datetime_in_final:
  assumes "station_shaped df0"
  shows "''datetime'' \<in> set (columns (final_table P df0))"
proof -
  have "''datetime'' \<in> set (map lower (columns df0))"
    unfolding lowered_shaped [OF assms] lowered_station_cols by simp
  then show ?thesis by (simp add: final_table_def)
qed

lemma main_no_stations:
  assumes "station_ids_of (arg_stations a) = []"
  shows "main P W a =
           ([], case to_datetime_text P (arg_start a @ '' 00:00'') of
                  None \<Rightarrow> Inl (DateParseError (arg_start a @ '' 00:00''))
                | Some start_ts \<Rightarrow>
                    (case to_datetime_text P (arg_end a @ '' 23:59'') of
                       None \<Rightarrow> Inl (DateParseError (arg_end a @ '' 23:59''))
                     | Some end_ts \<Rightarrow> Inl (ValueError ''No stations provided.'')))"
  using assms by (simp add: main_def split: option.splits)

lemma main_aggregate_error:
  assumes "to_datetime_text P (arg_start a @ '' 00:00'') = Some s"
    and "to_datetime_text P (arg_end a @ '' 23:59'') = Some e"
    and "station_ids_of (arg_stations a) \<noteq> []"
    and "aggregate P W s e (arg_chunksize a) (station_ids_of (arg_stations a)) = (ev, Inl err)"
  shows "main P W a = (ev, Inl err)"
  using assms by (simp add: main_def)

lemma main_after_aggregate:
  assumes "to_datetime_text P (arg_start a @ '' 00:00'') = Some s"
    and "to_datetime_text P (arg_end a @ '' 23:59'') = Some e"
    and "station_ids_of (arg_stations a) \<noteq> []"
    and "aggregate P W s e (arg_chunksize a) (station_ids_of (arg_stations a)) = (ev, Inr df0)"
  shows "main P W a =
           (ev @ [Print ''shape:'', Print ''cols:'', Print ''head'', Print ''datetime_range:'',
                  WriteParquet (out_path a) (final_table P df0), Print ''saved:''],
            Inr ())"
proof -
  have sh: "station_shaped df0" by (rule aggregate_Inr(1) [OF assms(4)])
  have g: "getitem (final_table P df0) ''datetime'' = Inr (series (final_table P df0) ''datetime'')"
    using datetime_in_final [OF sh] by (simp add: getitem_def)
  show ?thesis
    using assms by (simp add: main_def post_process_shaped [OF sh] g)
qed

lemma main_written:
  assumes "to_datetime_text P (arg_start a @ '' 00:00'') = Some s"
    and "to_datetime_text P (arg_end a @ '' 23:59'') = Some e"
    and "WriteParquet path df \<in> set (fst (main P W a))"
  shows "\<exists>ev df0. aggregate P W s e (arg_chunksize a) (station_ids_of (arg_stations a)) = (ev, Inr df0)
            \<and> df = final_table P df0 \<and> path = out_path a"
proof (cases "station_ids_of (arg_stations a) = []")
  case True
  then show ?thesis using assms(3) by (simp add: main_no_stations)
next
  case False
  let ?ids = "station_ids_of (arg_stations a)"
  obtain ev res where ag: "aggregate P W s e (arg_chunksize a) ?ids = (ev, res)"
    by (cases "aggregate P W s e (arg_chunksize a) ?ids")
  have nw: "WriteParquet path df \<notin> set ev"
    using aggregate_events [of P W s e "arg_chunksize a" ?ids] no_write_in_fetch [of path df ?ids] ag
    by auto
  show ?thesis
  proof (cases res)
    case (Inl err)
    then show ?thesis
      using assms(3) nw main_aggregate_error [OF assms(1,2) False] ag by simp
  next
    case (Inr df0)
    then have m: "main P W a =
           (ev @ [Print ''shape:'', Print ''cols:'', Print ''head'', Print ''datetime_range:'',
                  WriteParquet (out_path a) (final_table P df0), Print ''saved:''],
            Inr ())"
      using main_after_aggregate [OF assms(1,2) False] ag by simp
    then have "path = out_path a \<and> df = final_table P df0" using assms(3) nw by simp
    then show ?thesis using ag Inr by simp
  qed
qed

lemma script_events: "fst (script P W a) = MkDir OUT_DIR # fst (main P W a)"
  by (simp add: script_def split: prod.splits)

lemma script_result: "snd (script P W a) = snd (main P W a)"
  by (simp add: script_def split: prod.splits)

lemma demo_dates:
  "to_datetime_text pd_ref (arg_start demo_args @ '' 00:00'') = Some demo_start"
  "to_datetime_text pd_ref (arg_end demo_args @ '' 23:59'') = Some demo_end"
  by code_simp+

lemma demo_station_ids: "station_ids_of (arg_stations demo_args) = [''A'', ''B'']"
  by code_simp

lemma demo_final_table: "final_table pd_ref demo_table_A = demo_out"
proof -
  have "station_shaped demo_table_A" by (rule aggregate_Inr(1) [OF demo_aggregate])
  then have "post_process pd_ref demo_table_A = Inr (final_table pd_ref demo_table_A)"
    by (rule post_process_shaped)
  then show ?thesis using demo_post_process by simp
qed

lemma demo_script:
  "script pd_ref demo_remote demo_args =
     (MkDir OUT_DIR # fetch_events ''A'' @ fetch_events ''B'' @
        [Print ''shape:'', Print ''cols:'', Print ''head'', Print ''datetime_range:'',
         WriteParquet (out_path demo_args) demo_out, Print ''saved:''],
      Inr ())"
proof -
  have cs: "arg_chunksize demo_args = 2" by (simp add: demo_args_def)
  have ne: "station_ids_of (arg_stations demo_args) \<noteq> []" by (simp add: demo_station_ids)
  have ag: "aggregate pd_ref demo_remote demo_start demo_end (arg_chunksize demo_args)
              (station_ids_of (arg_stations demo_args)) =
              (fetch_events ''A'' @ fetch_events ''B'', Inr demo_table_A)"
    by (simp only: cs demo_station_ids demo_aggregate)
  show ?thesis
    using main_after_aggregate [OF demo_dates ne ag]
    by (simp add: script_def demo_final_table)
qed

section \<open>Further facts about the aggregator, the station list and the fetcher\<close>

lemma read_Inr_fst:
  assumes "snd (read_station_hourly P W sid s e cs) = Inr f"
  shows "fst (read_station_hourly P W sid s e cs) = fetch_events sid"
  using read_Inr_events [OF assms] by simp

lemma fetch_events_concat:
  assumes "\<forall>sid \<in> set ids. snd (read_station_hourly P W sid s e cs) = Inr (F sid)"
  shows "concat (map (\<lambda>sid. fst (read_station_hourly P W sid s e cs)) ids)
           = concat (map fetch_events ids)"
proof -
  have "fst (read_station_hourly P W sid s e cs) = fetch_events sid" if "sid \<in> set ids" for sid
    using assms that by (intro read_Inr_fst [of P W sid s e cs "F sid"]) blast
  then have "map (\<lambda>sid. fst (read_station_hourly P W sid s e cs)) ids = map fetch_events ids"
    by (intro map_cong refl)
  then show ?thesis by (rule arg_cong)
qed

lemma shaped_frames:
  assumes "\<forall>sid \<in> set ids. snd (read_station_hourly P W sid s e cs) = Inr (F sid)"
  shows "\<forall>f \<in> set (map F ids). station_shaped f"
  using assms read_Inr_shaped(1) by fastforce

lemma demo_dates_B:
  "to_datetime_text pd_ref (arg_start demo_args_B @ '' 00:00'') = Some demo_start"
  "to_datetime_text pd_ref (arg_end demo_args_B @ '' 23:59'') = Some demo_end"
  by code_simp+

lemma demo_station_ids_B: "station_ids_of (arg_stations demo_args_B) = [''B'']"
  by code_simp

lemma split_on_pieces: "w \<in> set (split_on sep str) \<Longrightarrow> set w \<subseteq> set str - {sep}"
proof (induction str arbitrary: w)
  case Nil
  then show ?case by simp
next
  case (Cons c cs)
  show ?case
  proof (cases "c = sep")
    case True
    then show ?thesis using Cons.prems Cons.IH by auto
  next
    case False
    show ?thesis
    proof (cases "split_on sep cs")
      case Nil
      then show ?thesis using Cons.prems False by simp
    next
      case (Cons v vs)
      then have "w = c # v \<or> w \<in> set vs" using Cons.prems False by simp
      moreover have "set v \<subseteq> set cs - {sep}" using Cons.IH [of v] Cons by simp
      moreover have "w \<in> set vs \<Longrightarrow> set w \<subseteq> set cs - {sep}" using Cons.IH [of w] Cons by simp
      ultimately show ?thesis using False by auto
    qed
  qed
qed

lemma strip_blank:
  assumes "\<forall>c \<in> set w. is_space c"
  shows "strip w = []"
proof -
  have d: "dropWhile is_space w = []" using assms by simp
  show ?thesis unfolding strip_def d by simp
qed

lemma station_ids_blank:
  assumes "\<forall>c \<in> set str. is_space c \<or> c = CHR '',''"
  shows "station_ids_of str = []"
proof -
  have "strip w = []" if "w \<in> set (split_on CHR '','' str)" for w
  proof (rule strip_blank)
    show "\<forall>c \<in> set w. is_space c" using split_on_pieces [OF that] assms by auto
  qed
  then have "filter (\<lambda>s. strip s \<noteq> []) (split_on CHR '','' str) = []"
    by (simp add: filter_empty_conv)
  then show ?thesis by (simp add: station_ids_of_def)
qed

lemma demo_blank_stations: "\<forall>c \<in> set (arg_stations demo_args_blank). is_space c \<or> c = CHR '',''"
  by code_simp

lemma demo_dates_blank:
  "to_datetime_text pd_ref (arg_start demo_args_blank @ '' 00:00'') = Some demo_start"
  "to_datetime_text pd_ref (arg_end demo_args_blank @ '' 23:59'') = Some demo_end"
  by code_simp+

lemma station_ids_of_spec: "station_ids_of str = station_list_spec str"
  by (simp add: station_ids_of_def station_list_spec_def filter_map comp_def)

lemma count_fetch_events:
  "count_list (concat (map fetch_events ids)) (HttpGet (STATION_FILE_TEMPLATE sid))
     = count_list ids sid"
  by (induction ids) (simp_all add: fetch_events_def template_inj)

lemma count_list_image: "count_list xs x \<le> count_list (map h xs) (h x)"
  by (induction xs) auto

lemma count_list_pos: "x \<in> set xs \<Longrightarrow> 1 \<le> count_list xs x"
  by (induction xs) auto

lemma count_blocks:
  assumes "r \<in> set (B sid)"
  shows "count_list ids sid \<le> count_list (concat (map (\<lambda>s. map h (B s)) ids)) (h r)"
proof (induction ids)
  case Nil
  then show ?case by simp
next
  case (Cons i ids)
  have "1 \<le> count_list (B sid) r" using assms by (rule count_list_pos)
  then have one: "1 \<le> count_list (map h (B sid)) (h r)"
    using count_list_image [of "B sid" r h] by simp
  show ?case using Cons.IH one by (cases "i = sid") simp_all
qed

lemma concat_without_empty:
  "concat (map f (filter (\<lambda>x. g x \<noteq> []) xs)) = concat (map f xs)"
  if "\<And>x. g x = [] \<Longrightarrow> f x = []"
  using that by (induction xs) auto

lemma demo_concat_AA: "pd_concat [demo_table_A, demo_table_A] = Inr demo_table_AA"
  by code_simp

lemma demo_station_ids_AA: "station_ids_of ''A, A'' = [''A'', ''A'']"
  by code_simp

lemma demo_aggregate_AA:
  "aggregate pd_ref demo_remote demo_start demo_end 2 (station_ids_of ''A, A'') =
     (fetch_events ''A'' @ fetch_events ''A'', Inr demo_table_AA)"
  by (simp add: demo_station_ids_AA aggregate_def demo_read_A demo_table_A_not_empty demo_concat_AA)

lemma station_table_rows:
  assumes "set USE_COLS \<subseteq> set (columns fl)"
  shows "rows (station_table P s e fl) =
           map (\<lambda>r. with_datetime P (reindex (selected_cols fl) r))
             (filter (row_in_range P s e) (rows fl))"
  using station_rows_filter [OF assms, of P s e]
  by (simp add: station_table_def DataFrame_def)

lemma no_timestamp_not_in_range:
  assumes "to_datetime_units P (cell_at r ''Year'') (cell_at r ''Month'') (cell_at r ''Day'')
             (cell_at r ''Hour'') (cell_at r ''Minute'') = None"
  shows "row_datetime P r = NaT \<and> \<not> row_in_range P s e r"
  using assms by (simp add: row_datetime_def stamp_cell_def row_in_range_def)

lemma aggregated_post_process:
  assumes "aggregate P W s e cs ids = (ev, Inr df0)"
  shows "post_process P df0 = Inr (final_table P df0)"
    and "length (rows (final_table P df0)) = length (rows df0)"
    and "i < length (rows df0) \<Longrightarrow> c \<in> set (columns df0) \<Longrightarrow>
           cell_at (rows (final_table P df0) ! i) (lower c) =
             (if lower c \<in> set MEASUREMENT_COLS then to_numeric P (cell_at (rows df0 ! i) c)
              else cell_at (rows df0 ! i) c)"
proof -
  have sh: "station_shaped df0" by (rule aggregate_Inr(1) [OF assms])
  show "post_process P df0 = Inr (final_table P df0)" by (rule post_process_shaped [OF sh])
  show "length (rows (final_table P df0)) = length (rows df0)" by (simp add: final_table_def)
  show "cell_at (rows (final_table P df0) ! i) (lower c) =
             (if lower c \<in> set MEASUREMENT_COLS then to_numeric P (cell_at (rows df0 ! i) c)
              else cell_at (rows df0 ! i) c)"
    if "i < length (rows df0)" "c \<in> set (columns df0)"
  proof -
    have "rows df0 ! i \<in> set (rows df0)" using that(1) by simp
    then show ?thesis
      using that cell_at_post_row [OF sh _ that(2), of "rows df0 ! i" P]
      by (simp add: final_table_def)
  qed
qed

lemma to_numeric_text_None: "to_numeric_text P t = None \<Longrightarrow> to_numeric P (Txt t) = NaN"
  by (simp add: to_numeric_def)

section \<open>The rows of the output lie in the range\<close>

text \<open>
  Claim C1. Every row of a table that a run writes has a timestamp in its \<open>datetime\<close>
  cell, not earlier than 00:00 of the start date and not later than 23:59 of the end date.
\<close>

theorem output_rows_within_range:
  assumes "to_datetime_text P (arg_start a @ '' 00:00'') = Some start_ts"
    and "to_datetime_text P (arg_end a @ '' 23:59'') = Some end_ts"
    and "WriteParquet path df \<in> set (fst (script P W a))"
    and "r \<in> set (rows df)"
  shows "\<exists>t. cell_at r ''datetime'' = Stamp t \<and> start_ts \<le> t \<and> t \<le> end_ts"
proof -
  have "WriteParquet path df \<in> set (fst (main P W a))"
    using assms(3) by (simp add: script_events)
  then obtain ev df0 where
    ag: "aggregate P W start_ts end_ts (arg_chunksize a) (station_ids_of (arg_stations a)) = (ev, Inr df0)"
    and df: "df = final_table P df0"
    using main_written [OF assms(1,2)] by blast
  have sh: "station_shaped df0" by (rule aggregate_Inr(1) [OF ag])
  obtain r0 where r0: "r0 \<in> set (rows df0)" "r = post_row P (columns df0) r0"
    using assms(4) df by (auto simp: final_table_def)
  have "in_range start_ts end_ts r0" using aggregate_Inr(2) [OF ag] r0(1) by blast
  then obtain t where t: "cell_at r0 ''datetime'' = Stamp t" "start_ts \<le> t" "t \<le> end_ts"
    by (auto simp: in_range_stamp)
  have l: "lower ''datetime'' = ''datetime''" by code_simp
  have "cell_at r (lower ''datetime'') = cell_at r0 ''datetime''"
    unfolding r0(2)
    using cell_at_post_row [OF sh r0(1) datetime_in_shaped [OF sh], of P]
    by (simp add: l MEASUREMENT_COLS_def)
  then show ?thesis using t by (simp add: l)
qed

theorem output_rows_within_range_witness:
  "to_datetime_text pd_ref (arg_start demo_args @ '' 00:00'') = Some demo_start
   \<and> to_datetime_text pd_ref (arg_end demo_args @ '' 23:59'') = Some demo_end
   \<and> WriteParquet (out_path demo_args) demo_out \<in> set (fst (script pd_ref demo_remote demo_args))
   \<and> demo_final ''A'' 2024 1 2 23 59 (Num (9 / 2)) (Num 0) 28403999 0 \<in> set (rows demo_out)
   \<and> (\<exists>t. cell_at (demo_final ''A'' 2024 1 2 23 59 (Num (9 / 2)) (Num 0) 28403999 0) ''datetime''
             = Stamp t \<and> demo_start \<le> t \<and> t \<le> demo_end)"
proof -
  let ?r = "demo_final ''A'' 2024 1 2 23 59 (Num (9 / 2)) (Num 0) 28403999 0"
  have w: "WriteParquet (out_path demo_args) demo_out \<in> set (fst (script pd_ref demo_remote demo_args))"
    by (simp add: demo_script)
  have m: "?r \<in> set (rows demo_out)" by (simp add: demo_out_def)
  show ?thesis
    using output_rows_within_range [OF demo_dates w m] demo_dates w m by simp
qed

section \<open>The rain indicator\<close>

text \<open>
  Claim C2. In every row of the post-processed table, \<open>is_rain\<close> is 1 exactly when the
  precipitation of the row is a number greater than 0, and 0 otherwise. The precipitation
  of such a row is a number or missing, and a missing precipitation gives 0.
\<close>

theorem is_rain_iff_positive_precipitation:
  assumes "post_process P df0 = Inr df" and "r \<in> set (rows df)"
  shows "cell_at r ''is_rain'' =
           Num (if (\<exists>x. cell_at r ''precipitation'' = Num x \<and> 0 < x) then 1 else 0)
         \<and> (cell_at r ''precipitation'' = NaN \<or> (\<exists>x. cell_at r ''precipitation'' = Num x))
         \<and> (cell_at r ''precipitation'' = NaN \<longrightarrow> cell_at r ''is_rain'' = Num 0)"
proof -
  have p: "''precipitation'' \<in> set (map lower (columns df0))"
    using assms(1) by (simp add: post_process_char split: if_splits)
  then have "df = \<lparr>columns = post_cols (columns df0),
                    rows = map (post_row P (columns df0)) (rows df0)\<rparr>"
    using assms(1) by (simp add: post_process_char)
  then obtain r0 where r: "r = post_row P (columns df0) r0"
    using assms(2) by auto
  have rain: "cell_at r ''is_rain'' =
           Num (if (\<exists>x. cell_at r ''precipitation'' = Num x \<and> 0 < x) then 1 else 0)"
    unfolding r by (simp only: is_rain_of_post_row astype_int_positive)
  have num: "cell_at r ''precipitation'' = NaN \<or> (\<exists>x. cell_at r ''precipitation'' = Num x)"
    unfolding r by (rule precipitation_numeric [OF p])
  show ?thesis using rain num by simp
qed

theorem is_rain_iff_positive_precipitation_witness:
  "post_process pd_ref demo_table_A = Inr demo_out
   \<and> demo_final ''A'' 2024 1 1 0 0 NaN (Num (1 / 2)) 28401120 1 \<in> set (rows demo_out)
   \<and> cell_at (demo_final ''A'' 2024 1 1 0 0 NaN (Num (1 / 2)) 28401120 1) ''precipitation'' = Num (1 / 2)
   \<and> cell_at (demo_final ''A'' 2024 1 1 0 0 NaN (Num (1 / 2)) 28401120 1) ''is_rain'' = Num 1
   \<and> demo_final ''A'' 2024 1 1 12 30 (Num 3) NaN 28401870 0 \<in> set (rows demo_out)
   \<and> cell_at (demo_final ''A'' 2024 1 1 12 30 (Num 3) NaN 28401870 0) ''precipitation'' = NaN
   \<and> cell_at (demo_final ''A'' 2024 1 1 12 30 (Num 3) NaN 28401870 0) ''is_rain'' = Num 0"
proof -
  let ?r1 = "demo_final ''A'' 2024 1 1 0 0 NaN (Num (1 / 2)) 28401120 1"
  let ?r2 = "demo_final ''A'' 2024 1 1 12 30 (Num 3) NaN 28401870 0"
  have m1: "?r1 \<in> set (rows demo_out)" and m2: "?r2 \<in> set (rows demo_out)"
    by (simp_all add: demo_out_def)
  have p1: "cell_at ?r1 ''precipitation'' = Num (1 / 2)"
    and p2: "cell_at ?r2 ''precipitation'' = NaN"
    by (simp_all add: demo_final_def cell_at_def)
  show ?thesis
    using is_rain_iff_positive_precipitation [OF demo_post_process m1]
      is_rain_iff_positive_precipitation [OF demo_post_process m2]
      demo_post_process m1 m2 p1 p2
    by simp
qed

section \<open>Malformed cells\<close>

text \<open>
  Claim C3, as stated: a row whose year, month, day, hour and minute give no valid
  timestamp is retained. It is not: the record of station \<open>A\<close> with month 13 gets no
  timestamp, and the table that the run writes has three rows, all of month 1.
\<close>

theorem row_without_timestamp_is_dropped:
  "demo_record ''A'' 2024 13 1 0 0 (Num 2) (Num 1) \<in> set (rows demo_A)
   \<and> to_datetime_units pd_ref (Num 2024) (Num 13) (Num 1) (Num 0) (Num 0) = None
   \<and> length (rows demo_A) = 6
   \<and> script pd_ref demo_remote demo_args =
       (MkDir OUT_DIR # fetch_events ''A'' @ fetch_events ''B'' @
          [Print ''shape:'', Print ''cols:'', Print ''head'', Print ''datetime_range:'',
           WriteParquet (out_path demo_args) demo_out, Print ''saved:''],
        Inr ())
   \<and> length (rows demo_out) = 3
   \<and> series demo_out ''month'' = [Num 1, Num 1, Num 1]"
proof -
  have 1: "demo_record ''A'' 2024 13 1 0 0 (Num 2) (Num 1) \<in> set (rows demo_A)
           \<and> length (rows demo_A) = 6"
    by (simp add: demo_A_def)
  have 2: "to_datetime_units pd_ref (Num 2024) (Num 13) (Num 1) (Num 0) (Num 0) = None"
    by code_simp
  have 3: "length (rows demo_out) = 3 \<and> series demo_out ''month'' = [Num 1, Num 1, Num 1]"
    by code_simp
  show ?thesis using 1 2 3 demo_script by simp
qed

text \<open>
  Claim C3, amended. A malformed cell is never an error. The fetch of a station file that
  is served with the columns of \<open>USE_COLS\<close> succeeds whatever its cells are, and keeps
  exactly the records whose year, month, day, hour and minute give a timestamp within the
  range, in the order of the file: a record whose fields give no timestamp has a missing
  \<open>datetime\<close> and is dropped by the range filter. The post-processing of the aggregated
  table succeeds and keeps every row: a measurement cell that holds a text denoting no
  number becomes missing, and the cells outside the measurement columns are unchanged.
\<close>

theorem malformed_cells_become_missing:
  assumes "1 \<le> cs"
    and "W (STATION_FILE_TEMPLATE sid) cs = Inr fl"
    and "set USE_COLS \<subseteq> set (columns fl)"
    and "aggregate P W s e cs ids = (ev, Inr df0)"
  shows "(\<exists>f. snd (read_station_hourly P W sid s e cs) = Inr f
            \<and> rows f = map (\<lambda>r. with_datetime P (reindex (selected_cols fl) r))
                         (filter (row_in_range P s e) (rows fl)))
       \<and> (\<forall>r. to_datetime_units P (cell_at r ''Year'') (cell_at r ''Month'') (cell_at r ''Day'')
                 (cell_at r ''Hour'') (cell_at r ''Minute'') = None
              \<longrightarrow> row_datetime P r = NaT \<and> \<not> row_in_range P s e r)
       \<and> (\<exists>df. post_process P df0 = Inr df
             \<and> length (rows df) = length (rows df0)
             \<and> (\<forall>i < length (rows df0). \<forall>c \<in> set (columns df0).
                   (\<forall>t. lower c \<in> set MEASUREMENT_COLS \<and> cell_at (rows df0 ! i) c = Txt t
                         \<and> to_numeric_text P t = None
                       \<longrightarrow> cell_at (rows df ! i) (lower c) = NaN)
                   \<and> (lower c \<notin> set MEASUREMENT_COLS
                       \<longrightarrow> cell_at (rows df ! i) (lower c) = cell_at (rows df0 ! i) c)))"
proof -
  have r: "read_station_hourly P W sid s e cs = (fetch_events sid, Inr (station_table P s e fl))"
    using read_station_hourly_ok [where W = W and sid = sid, OF assms(1-3)]
    by (simp add: fetch_events_def)
  have 1: "\<exists>f. snd (read_station_hourly P W sid s e cs) = Inr f
            \<and> rows f = map (\<lambda>r. with_datetime P (reindex (selected_cols fl) r))
                         (filter (row_in_range P s e) (rows fl))"
    using r station_table_rows [OF assms(3), of P s e] by simp
  have 2: "\<forall>r. to_datetime_units P (cell_at r ''Year'') (cell_at r ''Month'') (cell_at r ''Day'')
                 (cell_at r ''Hour'') (cell_at r ''Minute'') = None
              \<longrightarrow> row_datetime P r = NaT \<and> \<not> row_in_range P s e r"
    using no_timestamp_not_in_range by blast
  note pp = aggregated_post_process [OF assms(4)]
  have 3: "\<exists>df. post_process P df0 = Inr df
             \<and> length (rows df) = length (rows df0)
             \<and> (\<forall>i < length (rows df0). \<forall>c \<in> set (columns df0).
                   (\<forall>t. lower c \<in> set MEASUREMENT_COLS \<and> cell_at (rows df0 ! i) c = Txt t
                         \<and> to_numeric_text P t = None
                       \<longrightarrow> cell_at (rows df ! i) (lower c) = NaN)
                   \<and> (lower c \<notin> set MEASUREMENT_COLS
                       \<longrightarrow> cell_at (rows df ! i) (lower c) = cell_at (rows df0 ! i) c))"
  proof (intro exI [of _ "final_table P df0"] conjI allI impI ballI)
    show "post_process P df0 = Inr (final_table P df0)" by (rule pp(1))
    show "length (rows (final_table P df0)) = length (rows df0)" by (rule pp(2))
  next
    fix i c t
    assume "i < length (rows df0)" "c \<in> set (columns df0)"
      and "lower c \<in> set MEASUREMENT_COLS \<and> cell_at (rows df0 ! i) c = Txt t
            \<and> to_numeric_text P t = None"
    then show "cell_at (rows (final_table P df0) ! i) (lower c) = NaN"
      using pp(3) [of i c] by (simp add: to_numeric_text_None)
  next
    fix i c
    assume "i < length (rows df0)" "c \<in> set (columns df0)" "lower c \<notin> set MEASUREMENT_COLS"
    then show "cell_at (rows (final_table P df0) ! i) (lower c) = cell_at (rows df0 ! i) c"
      using pp(3) [of i c] by simp
  qed
  show ?thesis using 1 2 3 by blast
qed

theorem malformed_cells_become_missing_witness:
  "(1::int) \<le> 2 \<and> demo_remote (STATION_FILE_TEMPLATE ''A'') 2 = Inr demo_A
   \<and> set USE_COLS \<subseteq> set (columns demo_A)
   \<and> aggregate pd_ref demo_remote demo_start demo_end 2 [''A'', ''B''] =
        (fetch_events ''A'' @ fetch_events ''B'', Inr demo_table_A)
   \<and> snd (read_station_hourly pd_ref demo_remote ''A'' demo_start demo_end 2) = Inr demo_table_A
   \<and> length (rows demo_A) = 6 \<and> length (rows demo_table_A) = 3
   \<and> \<not> row_in_range pd_ref demo_start demo_end (demo_record ''A'' 2024 13 1 0 0 (Num 2) (Num 1))
   \<and> post_process pd_ref demo_table_A = Inr demo_out
   \<and> length (rows demo_out) = 3
   \<and> cell_at (rows demo_table_A ! 0) ''temperature'' = Txt ''abc''
   \<and> to_numeric_text pd_ref ''abc'' = None
   \<and> cell_at (rows demo_out ! 0) ''temperature'' = NaN
   \<and> cell_at (rows demo_out ! 0) ''station_name'' = cell_at (rows demo_table_A ! 0) ''Station_name''"
proof -
  have b: "(1::int) \<le> 2" by simp
  note t = malformed_cells_become_missing [where W = demo_remote and sid = "''A''",
      OF b demo_remote_A demo_A_cols demo_aggregate]
  have u: "to_datetime_units pd_ref
             (cell_at (demo_record ''A'' 2024 13 1 0 0 (Num 2) (Num 1)) ''Year'')
             (cell_at (demo_record ''A'' 2024 13 1 0 0 (Num 2) (Num 1)) ''Month'')
             (cell_at (demo_record ''A'' 2024 13 1 0 0 (Num 2) (Num 1)) ''Day'')
             (cell_at (demo_record ''A'' 2024 13 1 0 0 (Num 2) (Num 1)) ''Hour'')
             (cell_at (demo_record ''A'' 2024 13 1 0 0 (Num 2) (Num 1)) ''Minute'') = None"
    by code_simp
  have nr: "\<not> row_in_range pd_ref demo_start demo_end (demo_record ''A'' 2024 13 1 0 0 (Num 2) (Num 1))"
    using t u by blast
  have n: "length (rows demo_A) = 6 \<and> length (rows demo_table_A) = 3 \<and> length (rows demo_out) = 3"
    by (simp add: demo_A_def demo_table_A_def demo_out_def)
  have c: "cell_at (rows demo_table_A ! 0) ''temperature'' = Txt ''abc''
         \<and> to_numeric_text pd_ref ''abc'' = None
         \<and> cell_at (rows demo_out ! 0) ''temperature'' = NaN
         \<and> cell_at (rows demo_out ! 0) ''station_name'' = cell_at (rows demo_table_A ! 0) ''Station_name''"
    by code_simp
  show ?thesis
    using b demo_remote_A demo_A_cols demo_aggregate nr n c demo_post_process
    by (simp add: demo_read_A)
qed

section \<open>Chunking invariance\<close>




section \<open>The aggregator\<close>

text \<open>
  Claim C5. When every station of the list can be fetched, the aggregator runs the
  fetcher once per identifier, in the order of the list: its events are the events of
  these fetches, in that order. It drops the empty tables and fails when none is left;
  otherwise its table has the columns of the first table kept and the rows of the tables
  kept, in the order of the list and, within a station, in the order of the station, each
  row laid out on those columns with the same cell under every name. For the list of a
  station with rows and a station without, the result is the table of the first.
\<close>

theorem aggregate_in_list_order:
  assumes "\<forall>sid \<in> set ids. snd (read_station_hourly P W sid s e cs) = Inr (F sid)"
    and "frames = filter (\<lambda>f. \<not> df_empty f) (map F ids)"
  shows "fst (aggregate P W s e cs ids) =
           concat (map (\<lambda>sid. fst (read_station_hourly P W sid s e cs)) ids)
       \<and> snd (aggregate P W s e cs ids) =
           (if frames = []
            then Inl (ValueError ''No data found for the provided stations and date range.'')
            else Inr \<lparr>columns = columns (hd frames),
                      rows = concat (map (\<lambda>f. map (reindex (columns (hd frames))) (rows f)) frames)\<rparr>)
       \<and> (\<forall>f \<in> set frames. \<forall>r \<in> set (rows f). \<forall>c.
             cell_at (reindex (columns (hd frames)) r) c = cell_at r c)
       \<and> (\<forall>a b. ids = [a, b] \<and> \<not> df_empty (F a) \<and> df_empty (F b)
             \<longrightarrow> snd (aggregate P W s e cs ids) = Inr (F a))"
proof -
  have sh: "\<forall>f \<in> set frames. station_shaped f"
    using shaped_frames [OF assms(1)] unfolding assms(2) by auto
  have ag: "aggregate P W s e cs ids =
              (concat (map fetch_events ids), if frames = [] then Inl NO_DATA else pd_concat frames)"
    unfolding assms(2) by (rule aggregate_char [OF assms(1)])
  have 1: "fst (aggregate P W s e cs ids) =
             concat (map (\<lambda>sid. fst (read_station_hourly P W sid s e cs)) ids)"
    by (simp add: ag fetch_events_concat [OF assms(1)])
  have 2: "snd (aggregate P W s e cs ids) =
           (if frames = []
            then Inl (ValueError ''No data found for the provided stations and date range.'')
            else Inr \<lparr>columns = columns (hd frames),
                      rows = concat (map (\<lambda>f. map (reindex (columns (hd frames))) (rows f)) frames)\<rparr>)"
  proof (cases "frames = []")
    case True
    then show ?thesis by (simp add: ag NO_DATA_def)
  next
    case False
    then show ?thesis using pd_concat_shaped [OF False sh] by (simp add: ag)
  qed
  have 3: "\<forall>f \<in> set frames. \<forall>r \<in> set (rows f). \<forall>c.
             cell_at (reindex (columns (hd frames)) r) c = cell_at r c"
  proof (intro ballI allI)
    fix f r c assume f: "f \<in> set frames" and r: "r \<in> set (rows f)"
    then have "frames \<noteq> []" by auto
    then have "hd frames \<in> set frames" by simp
    then have "station_shaped (hd frames)" using sh by blast
    moreover have "station_shaped f" using sh f by blast
    ultimately show "cell_at (reindex (columns (hd frames)) r) c = cell_at r c"
      using r by (rule reindex_shaped)
  qed
  have 4: "snd (aggregate P W s e cs ids) = Inr (F a)"
    if "ids = [a, b]" "\<not> df_empty (F a)" "df_empty (F b)" for a b
  proof -
    have fr: "frames = [F a]" using that assms(2) by simp
    then have "station_shaped (F a)" using sh by simp
    then have "pd_concat [F a] = Inr (F a)" by (rule pd_concat_single)
    then show ?thesis by (simp add: ag fr)
  qed
  show ?thesis using 1 2 3 4 by blast
qed

theorem aggregate_in_list_order_witness:
  "snd (read_station_hourly pd_ref demo_remote ''A'' demo_start demo_end 2) = Inr demo_table_A
   \<and> snd (read_station_hourly pd_ref demo_remote ''B'' demo_start demo_end 2)
        = Inr (DataFrame (USE_COLS @ [''datetime'']))
   \<and> length (rows demo_table_A) = 3 \<and> rows (DataFrame (USE_COLS @ [''datetime''])) = []
   \<and> fst (aggregate pd_ref demo_remote demo_start demo_end 2 [''A'', ''B''])
        = fst (read_station_hourly pd_ref demo_remote ''A'' demo_start demo_end 2)
          @ fst (read_station_hourly pd_ref demo_remote ''B'' demo_start demo_end 2)
   \<and> snd (aggregate pd_ref demo_remote demo_start demo_end 2 [''A'', ''B'']) = Inr demo_table_A"
proof -
  let ?F = "\<lambda>sid. if sid = ''A'' then demo_table_A else DataFrame (USE_COLS @ [''datetime''])"
  have h: "\<forall>sid \<in> set [''A'', ''B''].
             snd (read_station_hourly pd_ref demo_remote sid demo_start demo_end 2) = Inr (?F sid)"
    by (simp add: demo_read_A demo_read_B)
  have n: "length (rows demo_table_A) = 3 \<and> rows (DataFrame (USE_COLS @ [''datetime''])) = []"
    by (simp add: demo_table_A_def DataFrame_def)
  note t = aggregate_in_list_order [OF h refl]
  have 1: "fst (aggregate pd_ref demo_remote demo_start demo_end 2 [''A'', ''B''])
        = fst (read_station_hourly pd_ref demo_remote ''A'' demo_start demo_end 2)
          @ fst (read_station_hourly pd_ref demo_remote ''B'' demo_start demo_end 2)"
    using t by simp
  have ne: "\<not> df_empty (?F ''A'')" and em: "df_empty (?F ''B'')"
    using demo_table_A_not_empty empty_DataFrame by simp_all
  have "snd (aggregate pd_ref demo_remote demo_start demo_end 2 [''A'', ''B'']) = Inr (?F ''A'')"
    using t [THEN conjunct2, THEN conjunct2, THEN conjunct2, rule_format, of "''A''" "''B''"] ne em
    by blast
  then have 2: "snd (aggregate pd_ref demo_remote demo_start demo_end 2 [''A'', ''B'']) = Inr demo_table_A"
    by simp
  show ?thesis using 1 2 n by (simp add: demo_read_A demo_read_B)
qed

section \<open>No data in the range\<close>

text \<open>
  Claim C6. When the dates parse, the station list is not empty and every station is
  fetched and gives a table without rows, the run fails with the error of no data, after
  it has fetched every station in turn, and it writes no file: the events of the run are
  the creation of the output directory and, per station, the printed line and the request.
\<close>

theorem no_data_is_an_error:
  assumes "to_datetime_text P (arg_start a @ '' 00:00'') = Some s"
    and "to_datetime_text P (arg_end a @ '' 23:59'') = Some e"
    and "station_ids_of (arg_stations a) \<noteq> []"
    and "\<forall>sid \<in> set (station_ids_of (arg_stations a)).
           \<exists>f. snd (read_station_hourly P W sid s e (arg_chunksize a)) = Inr f \<and> rows f = []"
  shows "script P W a =
           (MkDir OUT_DIR #
              concat (map (\<lambda>sid. [Print ''station_url:'', HttpGet (STATION_FILE_TEMPLATE sid)])
                        (station_ids_of (arg_stations a))),
            Inl (ValueError ''No data found for the provided stations and date range.''))
         \<and> (\<forall>path df. WriteParquet path df \<notin> set (fst (script P W a)))"
proof -
  let ?ids = "station_ids_of (arg_stations a)"
  let ?F = "\<lambda>sid. case snd (read_station_hourly P W sid s e (arg_chunksize a)) of Inr f \<Rightarrow> f"
  have h: "\<forall>sid \<in> set ?ids. snd (read_station_hourly P W sid s e (arg_chunksize a)) = Inr (?F sid)"
    using assms(4) by auto
  have em: "\<forall>sid \<in> set ?ids. df_empty (?F sid)"
    using assms(4) by (auto simp: df_empty_def)
  have "filter (\<lambda>f. \<not> df_empty f) (map ?F ?ids) = []"
    using em by (simp add: filter_empty_conv)
  then have ag: "aggregate P W s e (arg_chunksize a) ?ids = (concat (map fetch_events ?ids), Inl NO_DATA)"
    using aggregate_char [OF h] by simp
  have m: "main P W a = (concat (map fetch_events ?ids), Inl NO_DATA)"
    by (rule main_aggregate_error [OF assms(1-3) ag])
  have ev: "concat (map fetch_events ?ids) =
              concat (map (\<lambda>sid. [Print ''station_url:'', HttpGet (STATION_FILE_TEMPLATE sid)]) ?ids)"
  proof -
    have "fetch_events = (\<lambda>sid. [Print ''station_url:'', HttpGet (STATION_FILE_TEMPLATE sid)])"
      by (rule ext) (simp add: fetch_events_def)
    then show ?thesis by simp
  qed
  have 1: "script P W a =
           (MkDir OUT_DIR #
              concat (map (\<lambda>sid. [Print ''station_url:'', HttpGet (STATION_FILE_TEMPLATE sid)]) ?ids),
            Inl (ValueError ''No data found for the provided stations and date range.''))"
    by (simp add: script_def m ev NO_DATA_def)
  have 2: "WriteParquet path df \<notin> set (fst (script P W a))" for path df
    unfolding 1 by auto
  show ?thesis using 1 2 by blast
qed

theorem no_data_is_an_error_witness:
  "to_datetime_text pd_ref (arg_start demo_args_B @ '' 00:00'') = Some demo_start
   \<and> to_datetime_text pd_ref (arg_end demo_args_B @ '' 23:59'') = Some demo_end
   \<and> station_ids_of (arg_stations demo_args_B) = [''B'']
   \<and> snd (read_station_hourly pd_ref demo_remote ''B'' demo_start demo_end 2)
        = Inr (DataFrame (USE_COLS @ [''datetime'']))
   \<and> rows (DataFrame (USE_COLS @ [''datetime''])) = []
   \<and> script pd_ref demo_remote demo_args_B =
        ([MkDir OUT_DIR, Print ''station_url:'', HttpGet (STATION_FILE_TEMPLATE ''B'')],
         Inl (ValueError ''No data found for the provided stations and date range.''))"
proof -
  have cs: "arg_chunksize demo_args_B = 2" by (simp add: demo_args_B_def)
  have ne: "station_ids_of (arg_stations demo_args_B) \<noteq> []" by (simp add: demo_station_ids_B)
  have r: "rows (DataFrame (USE_COLS @ [''datetime''])) = []" by (simp add: DataFrame_def)
  have h: "\<forall>sid \<in> set (station_ids_of (arg_stations demo_args_B)).
             \<exists>f. snd (read_station_hourly pd_ref demo_remote sid demo_start demo_end
                        (arg_chunksize demo_args_B)) = Inr f \<and> rows f = []"
    by (simp add: demo_station_ids_B cs demo_read_B r)
  show ?thesis
    using no_data_is_an_error [OF demo_dates_B ne h] demo_dates_B r
    by (simp add: demo_station_ids_B demo_read_B)
qed

section \<open>An empty station list\<close>

text \<open>
  Claim C7, as stated: with a station list that is empty after splitting and trimming,
  the run fails before any I/O. It does not: the module has created the output directory
  before \<^verbatim>\<open>main\<close> starts, so the run with the stations \<^verbatim>\<open>" , "\<close> has an event.
\<close>

theorem empty_station_list_after_mkdir:
  "station_ids_of (arg_stations demo_args_blank) = []
   \<and> script pd_ref demo_remote demo_args_blank =
       ([MkDir ''data/raw/weather_hourly''], Inl (ValueError ''No stations provided.''))
   \<and> fst (script pd_ref demo_remote demo_args_blank) \<noteq> []"
proof -
  have e: "station_ids_of (arg_stations demo_args_blank) = []"
    by (rule station_ids_blank [OF demo_blank_stations])
  have "script pd_ref demo_remote demo_args_blank =
       ([MkDir ''data/raw/weather_hourly''], Inl (ValueError ''No stations provided.''))"
    by (simp add: script_def main_no_stations [OF e] demo_dates_blank OUT_DIR_def)
  then show ?thesis using e by simp
qed

text \<open>
  Claim C7, amended. With a station list that is empty after splitting and trimming, the
  run contacts no remote source, prints nothing and writes no file: its only event is the
  creation of the output directory, done when the module is loaded. It fails with the
  error of the empty station list when both dates parse, and with the error of the date
  that does not parse otherwise. A value made of white space and commas gives the empty
  list.
\<close>

theorem empty_station_list_fails_before_fetch:
  "(station_ids_of (arg_stations a) = [] \<longrightarrow>
      fst (script P W a) = [MkDir OUT_DIR]
      \<and> snd (script P W a) =
          (case to_datetime_text P (arg_start a @ '' 00:00'') of
             None \<Rightarrow> Inl (DateParseError (arg_start a @ '' 00:00''))
           | Some start_ts \<Rightarrow>
               (case to_datetime_text P (arg_end a @ '' 23:59'') of
                  None \<Rightarrow> Inl (DateParseError (arg_end a @ '' 23:59''))
                | Some end_ts \<Rightarrow> Inl (ValueError ''No stations provided.''))))
   \<and> ((\<forall>c \<in> set (arg_stations a). is_space c \<or> c = CHR '','')
         \<longrightarrow> station_ids_of (arg_stations a) = [])"
  by (simp add: script_events script_result main_no_stations station_ids_blank)

theorem empty_station_list_fails_before_fetch_witness:
  "list_all (\<lambda>c. is_space c \<or> c = CHR '','') (arg_stations demo_args_blank)
   \<and> station_ids_of (arg_stations demo_args_blank) = []
   \<and> fst (script pd_ref demo_remote demo_args_blank) = [MkDir OUT_DIR]
   \<and> snd (script pd_ref demo_remote demo_args_blank) = Inl (ValueError ''No stations provided.'')"
proof -
  have b: "list_all (\<lambda>c. is_space c \<or> c = CHR '','') (arg_stations demo_args_blank)"
    using demo_blank_stations by (simp add: list_all_iff)
  have e: "station_ids_of (arg_stations demo_args_blank) = []"
    using empty_station_list_fails_before_fetch [of demo_args_blank] demo_blank_stations by blast
  show ?thesis
    using empty_station_list_fails_before_fetch [of demo_args_blank pd_ref demo_remote] b e
    by (simp add: demo_dates_blank)
qed

section \<open>A station without data\<close>

text \<open>
  Claim C8. When no record of a station file lies in the range, the fetcher returns the
  empty table on the columns of \<open>USE_COLS\<close> and \<open>datetime\<close>, not an error, and
  the loop over the stations goes on with the stations that remain, its list of tables
  unchanged.
\<close>

theorem station_without_data_is_empty_table:
  assumes "1 \<le> cs"
    and "W (STATION_FILE_TEMPLATE sid) cs = Inr fl"
    and "set USE_COLS \<subseteq> set (columns fl)"
    and "\<forall>r \<in> set (rows fl). \<not> row_in_range P s e r"
  shows "read_station_hourly P W sid s e cs =
           ([Print ''station_url:'', HttpGet (STATION_FILE_TEMPLATE sid)],
            Inr \<lparr>columns = USE_COLS @ [''datetime''], rows = []\<rparr>)
         \<and> station_loop P W s e cs (sid # ids) frames =
             (case station_loop P W s e cs ids frames of
                (ev, r) \<Rightarrow> ([Print ''station_url:'', HttpGet (STATION_FILE_TEMPLATE sid)] @ ev, r))"
proof -
  have "filter (row_in_range P s e) (rows fl) = []"
    using assms(4) by (simp add: filter_empty_conv)
  then have "station_rows P s e fl = []"
    by (simp add: station_rows_filter [OF assms(3)])
  then have t: "station_table P s e fl = \<lparr>columns = USE_COLS @ [''datetime''], rows = []\<rparr>"
    by (simp add: station_table_def DataFrame_def)
  have r: "read_station_hourly P W sid s e cs =
           ([Print ''station_url:'', HttpGet (STATION_FILE_TEMPLATE sid)],
            Inr \<lparr>columns = USE_COLS @ [''datetime''], rows = []\<rparr>)"
    by (simp add: read_station_hourly_ok [where W = W and sid = sid, OF assms(1-3)] t)
  show ?thesis
    by (simp add: r df_empty_def split: prod.splits)
qed

theorem station_without_data_is_empty_table_witness:
  "(1::int) \<le> 2 \<and> demo_remote (STATION_FILE_TEMPLATE ''B'') 2 = Inr demo_B
   \<and> set USE_COLS \<subseteq> set (columns demo_B) \<and> rows demo_B \<noteq> []
   \<and> snd (read_station_hourly pd_ref demo_remote ''B'' demo_start demo_end 2) =
        Inr \<lparr>columns = USE_COLS @ [''datetime''], rows = []\<rparr>"
proof -
  have b: "(1::int) \<le> 2" by simp
  have ne: "rows demo_B \<noteq> []" by (simp add: demo_B_def)
  show ?thesis
    using station_without_data_is_empty_table [where W = demo_remote and sid = "''B''"
        and ids = "[]" and frames = "[]", OF b demo_remote_B demo_B_cols demo_B_out_of_range]
      demo_remote_B demo_B_cols ne
    by simp
qed

section \<open>The frame of the post-processor\<close>

text \<open>
  Claim C9. On the table that the aggregator returns, the post-processor succeeds. Its
  columns are the lower-cased columns followed by \<open>is_rain\<close>; it has as many rows as
  the aggregated table; in every row, a cell of a measurement column is the coerced cell
  of the aggregated row, and a cell of any other column is the cell of the aggregated row.
\<close>

theorem post_processor_frame:
  assumes "aggregate P W s e cs ids = (ev, Inr df0)"
  shows "\<exists>df. post_process P df0 = Inr df
           \<and> columns df = map lower (columns df0) @ [''is_rain'']
           \<and> length (rows df) = length (rows df0)
           \<and> (\<forall>i < length (rows df0). \<forall>c \<in> set (columns df0).
                 cell_at (rows df ! i) (lower c) =
                   (if lower c \<in> set MEASUREMENT_COLS then to_numeric P (cell_at (rows df0 ! i) c)
                    else cell_at (rows df0 ! i) c))"
proof -
  have sh: "station_shaped df0" by (rule aggregate_Inr(1) [OF assms])
  have pp: "post_process P df0 = Inr (final_table P df0)" by (rule post_process_shaped [OF sh])
  have cells: "cell_at (rows (final_table P df0) ! i) (lower c) =
                 (if lower c \<in> set MEASUREMENT_COLS then to_numeric P (cell_at (rows df0 ! i) c)
                  else cell_at (rows df0 ! i) c)"
    if "i < length (rows df0)" "c \<in> set (columns df0)" for i c
  proof -
    have "rows df0 ! i \<in> set (rows df0)" using that(1) by simp
    then show ?thesis
      using that cell_at_post_row [OF sh _ that(2), of "rows df0 ! i" P]
      by (simp add: final_table_def)
  qed
  show ?thesis
    using pp cells by (intro exI [of _ "final_table P df0"]) (simp add: final_table_def)
qed

theorem post_processor_frame_witness:
  "aggregate pd_ref demo_remote demo_start demo_end 2 [''A'', ''B''] =
     (fetch_events ''A'' @ fetch_events ''B'', Inr demo_table_A)
   \<and> post_process pd_ref demo_table_A = Inr demo_out
   \<and> columns demo_out = map lower (columns demo_table_A) @ [''is_rain'']
   \<and> length (rows demo_out) = 3 \<and> length (rows demo_table_A) = 3
   \<and> cell_at (rows demo_table_A ! 0) ''temperature'' = Txt ''abc''
   \<and> cell_at (rows demo_out ! 0) ''temperature'' = NaN
   \<and> cell_at (rows demo_out ! 0) ''station_name'' = cell_at (rows demo_table_A ! 0) ''Station_name''"
proof -
  obtain df where df: "post_process pd_ref demo_table_A = Inr df"
      "columns df = map lower (columns demo_table_A) @ [''is_rain'']"
      "length (rows df) = length (rows demo_table_A)"
    using post_processor_frame [OF demo_aggregate] by blast
  have eq: "df = demo_out" using df(1) demo_post_process by simp
  have n: "length (rows demo_table_A) = 3" by (simp add: demo_table_A_def)
  have c: "cell_at (rows demo_table_A ! 0) ''temperature'' = Txt ''abc''
         \<and> cell_at (rows demo_out ! 0) ''temperature'' = NaN
         \<and> cell_at (rows demo_out ! 0) ''station_name'' = cell_at (rows demo_table_A ! 0) ''Station_name''"
    by (simp add: demo_table_A_def demo_out_def demo_kept_def demo_final_def cell_at_def)
  show ?thesis
    using df(2,3) demo_aggregate demo_post_process n c unfolding eq by simp
qed

section \<open>Duplicate station identifiers\<close>

text \<open>
  Claim C10. The station list is the list of the entries of \<^verbatim>\<open>--stations\<close> between
  commas, stripped of surrounding white space, without the empty ones, in order and with
  repetitions. When every station of the list is fetched and the aggregator returns a
  table, a station is requested as many times as it occurs in the list, the rows of the
  table are the rows of the stations in the order of the list, once per occurrence, and so
  each row of a station occurs in the table at least as many times as the station occurs
  in the list, under every column name with the cell it has in the table of the station.
\<close>

theorem duplicate_stations_are_fetched_again:
  assumes "\<forall>sid \<in> set (station_ids_of str). snd (read_station_hourly P W sid s e cs) = Inr (F sid)"
    and "aggregate P W s e cs (station_ids_of str) = (ev, Inr df0)"
  shows "station_ids_of str = station_list_spec str
       \<and> count_list ev (HttpGet (STATION_FILE_TEMPLATE sid)) = count_list (station_ids_of str) sid
       \<and> rows df0 =
           concat (map (\<lambda>sid. map (reindex (columns df0)) (rows (F sid))) (station_ids_of str))
       \<and> (\<forall>r \<in> set (rows (F sid)).
             count_list (station_ids_of str) sid \<le> count_list (rows df0) (reindex (columns df0) r)
             \<and> (sid \<in> set (station_ids_of str) \<longrightarrow>
                  (\<forall>c. cell_at (reindex (columns df0) r) c = cell_at r c)))"
proof -
  let ?ids = "station_ids_of str"
  let ?frames = "filter (\<lambda>f. \<not> df_empty f) (map F ?ids)"
  have sh: "\<forall>f \<in> set (map F ?ids). station_shaped f" by (rule shaped_frames [OF assms(1)])
  then have shf: "\<forall>f \<in> set ?frames. station_shaped f" by auto
  have ag: "aggregate P W s e cs ?ids =
              (concat (map fetch_events ?ids), if ?frames = [] then Inl NO_DATA else pd_concat ?frames)"
    by (rule aggregate_char [OF assms(1)])
  have ev: "ev = concat (map fetch_events ?ids)" using ag assms(2) by simp
  have ne: "?frames \<noteq> []" using ag assms(2) by (auto split: if_splits)
  have pc: "pd_concat ?frames = Inr df0" using ag assms(2) ne by simp
  note res = pd_concat_shaped_result [OF ne shf pc]
  have fr: "?frames = filter (\<lambda>f. rows f \<noteq> []) (map F ?ids)"
    using sh shaped_not_empty by (intro filter_cong refl) auto
  have rows: "rows df0 = concat (map (\<lambda>sid. map (reindex (columns df0)) (rows (F sid))) ?ids)"
  proof -
    have "rows df0 = concat (map (\<lambda>f. map (reindex (columns df0)) (rows f)) ?frames)"
      using res(2,3) by simp
    also have "\<dots> = concat (map (\<lambda>f. map (reindex (columns df0)) (rows f)) (map F ?ids))"
      unfolding fr by (rule concat_without_empty) simp
    finally show ?thesis by (simp add: comp_def)
  qed
  have cnt: "count_list ?ids sid \<le> count_list (rows df0) (reindex (columns df0) r)"
    if "r \<in> set (rows (F sid))" for r
    unfolding rows using that by (rule count_blocks [where B = "\<lambda>s. rows (F s)"])
  have cells: "cell_at (reindex (columns df0) r) c = cell_at r c"
    if "r \<in> set (rows (F sid))" "sid \<in> set ?ids" for r c
  proof -
    have "station_shaped (F sid)" using sh that(2) by simp
    then show ?thesis using res(1) that(1) reindex_shaped by blast
  qed
  show ?thesis
    using station_ids_of_spec [of str] count_fetch_events [of ?ids sid] rows cnt cells
    unfolding ev by blast
qed

theorem duplicate_stations_are_fetched_again_witness:
  "station_ids_of ''A, A'' = [''A'', ''A'']
   \<and> snd (read_station_hourly pd_ref demo_remote ''A'' demo_start demo_end 2) = Inr demo_table_A
   \<and> aggregate pd_ref demo_remote demo_start demo_end 2 (station_ids_of ''A, A'') =
        (fetch_events ''A'' @ fetch_events ''A'', Inr demo_table_AA)
   \<and> count_list (fetch_events ''A'' @ fetch_events ''A'') (HttpGet (STATION_FILE_TEMPLATE ''A'')) = 2
   \<and> rows demo_table_AA = rows demo_table_A @ rows demo_table_A
   \<and> length (rows demo_table_A) = 3
   \<and> 2 \<le> count_list (rows demo_table_AA)
            (reindex (columns demo_table_AA) (demo_kept ''A'' 2024 1 1 12 30 (Num 3) NaN 28401870))"
proof -
  let ?r = "demo_kept ''A'' 2024 1 1 12 30 (Num 3) NaN 28401870"
  have h: "\<forall>sid \<in> set (station_ids_of ''A, A'').
             snd (read_station_hourly pd_ref demo_remote sid demo_start demo_end 2)
               = Inr ((\<lambda>sid. demo_table_A) sid)"
    by (simp add: demo_station_ids_AA demo_read_A)
  have m: "?r \<in> set (rows demo_table_A)" by (simp add: demo_table_A_def)
  have n: "length (rows demo_table_A) = 3" by (simp add: demo_table_A_def)
  note t = duplicate_stations_are_fetched_again [OF h demo_aggregate_AA, of "''A''"]
  have c: "count_list (fetch_events ''A'' @ fetch_events ''A'') (HttpGet (STATION_FILE_TEMPLATE ''A'')) = 2"
    using t by (simp add: demo_station_ids_AA)
  have rows: "rows demo_table_AA = rows demo_table_A @ rows demo_table_A"
    by (simp add: demo_table_AA_def)
  have k: "2 \<le> count_list (rows demo_table_AA) (reindex (columns demo_table_AA) ?r)"
    using t m by (auto simp: demo_station_ids_AA)
  show ?thesis
    using c rows k n demo_aggregate_AA by (simp add: demo_station_ids_AA demo_read_A)
qed

end
